theory Spec2Isabelle
  imports Complex_Main "HOL-Library.Word"
begin

section \<open>JavaScript strings\<close>

text \<open>
  A JavaScript string is a sequence of UTF-16 code units; \<open>length\<close>, the regular
  expression engine (without the \<open>u\<close> flag) and \<open>trim\<close> all work on code units.
  ASCII literals of the source are written \<open>js ''...''\<close>.
\<close>

type_synonym code_unit = "16 word"
type_synonym jsstring = "code_unit list"

definition js :: "string \<Rightarrow> jsstring" where
  "js s = map of_char s"

text \<open>
  The class \<open>\s\<close> of a JavaScript regular expression and the characters removed by
  \<open>String.prototype.trim\<close> are the same set: WhiteSpace and LineTerminator of ECMAScript.
\<close>

definition is_ws :: "code_unit \<Rightarrow> bool" where
  "is_ws c = (c \<in> set [0x9, 0xA, 0xB, 0xC, 0xD, 0x20, 0xA0, 0x1680,
      0x2000, 0x2001, 0x2002, 0x2003, 0x2004, 0x2005, 0x2006, 0x2007, 0x2008, 0x2009, 0x200A,
      0x2028, 0x2029, 0x202F, 0x205F, 0x3000, 0xFEFF])"

definition trim :: "jsstring \<Rightarrow> jsstring" where
  "trim s = rev (dropWhile is_ws (rev (dropWhile is_ws s)))"

section \<open>The receipt block: \<open>RECEIPT_REGEX\<close>, \<open>parseReceipt\<close>, \<open>stripReceiptBlock\<close>\<close>

text \<open>
  \<^verbatim>\<open>const RECEIPT_REGEX = /```json\s*(\{[\s\S]*?\})\s*```/;\<close>

  The matcher below follows the backtracking semantics of the expression piece by piece.
  \<open>strip_lit\<close> matches a literal at the head of the text. Both \<open>\s*\<close> are greedy and are
  followed by a character that is not white space, so only the maximal run can succeed:
  that is \<open>dropWhile is_ws\<close>. The lazy \<open>[\s\S]*?\<close> stops at the first closing brace after
  which \<open>\s*```\<close> matches (\<open>lazy_body\<close>). \<open>regex_exec\<close> tries every start position from
  the left, as \<open>String.prototype.match\<close> and \<open>replace\<close> do for an expression without the
  \<open>g\<close> flag, and returns the text before the match, capture group 1 and the text after
  the match.
\<close>

fun strip_lit :: "jsstring \<Rightarrow> jsstring \<Rightarrow> jsstring option" where
  "strip_lit [] s = Some s"
| "strip_lit (p # ps) [] = None"
| "strip_lit (p # ps) (c # cs) = (if p = c then strip_lit ps cs else None)"

definition close_here :: "jsstring \<Rightarrow> jsstring option" where
  "close_here s = strip_lit (js ''```'') (dropWhile is_ws s)"

fun lazy_body :: "jsstring \<Rightarrow> (jsstring \<times> jsstring) option" where
  "lazy_body [] = None"
| "lazy_body (c # cs) =
     (case (if c = of_char CHR ''}'' then close_here cs else None) of
        Some rest \<Rightarrow> Some ([c], rest)
      | None \<Rightarrow> map_option (\<lambda>(b, rest). (c # b, rest)) (lazy_body cs))"

definition match_here :: "jsstring \<Rightarrow> (jsstring \<times> jsstring) option" where
  "match_here s =
     (case strip_lit (js ''```json'') s of
        None \<Rightarrow> None
      | Some r \<Rightarrow>
          (case dropWhile is_ws r of
             [] \<Rightarrow> None
           | c # cs \<Rightarrow>
               if c = of_char CHR ''{''
               then map_option (\<lambda>(b, rest). (c # b, rest)) (lazy_body cs)
               else None))"

fun regex_exec :: "jsstring \<Rightarrow> (jsstring \<times> jsstring \<times> jsstring) option" where
  "regex_exec [] = None"
| "regex_exec (c # cs) =
     (case match_here (c # cs) of
        Some (g, rest) \<Rightarrow> Some ([], g, rest)
      | None \<Rightarrow> map_option (\<lambda>(pre, g, rest). (c # pre, g, rest)) (regex_exec cs))"

text \<open>
  \<^verbatim>\<open>function stripReceiptBlock(text) { return text.replace(RECEIPT_REGEX, "").trim(); }\<close>
  \<open>replace\<close> with an expression that has no \<open>g\<close> flag removes the first match only.
\<close>

definition stripReceiptBlock :: "jsstring \<Rightarrow> jsstring" where
  "stripReceiptBlock text =
     trim (case regex_exec text of None \<Rightarrow> text | Some (pre, g, rest) \<Rightarrow> pre @ rest)"

subsection \<open>Receipts\<close>

text \<open>
  The receipt types of \<open>order-service.ts\<close>. A JavaScript \<open>number\<close> that the code only
  copies and stores, never computes with, is modelled as a rational.

  The one property of an item that the code does more with than copy is \<open>add_ons\<close>:
  \<open>toItemRows\<close> calls \<open>item.add_ons.map(...)\<close>. A receipt reaches the code through an
  unchecked cast, so nothing makes that call succeed. \<open>add_ons\<close> is \<open>Some\<close> of the add-ons
  when the property is an array that can be mapped, and \<open>None\<close> for an item on which
  building the row throws a \<open>TypeError\<close>: an item without an \<open>add_ons\<close> array, an item
  that is itself \<open>null\<close> or \<open>undefined\<close>, or one whose array holds \<open>null\<close> or \<open>undefined\<close>.
\<close>

type_synonym number = rat

record ReceiptAddOn =
  name :: jsstring
  qty :: number
  price :: number

record ReceiptItem =
  item_name :: jsstring
  size :: jsstring
  temp :: jsstring
  milk :: "jsstring option"
  sweetness :: jsstring
  ice_level :: jsstring
  add_ons :: "ReceiptAddOn list option"
  item_price :: number
  special_instructions :: "jsstring option"

datatype receipt_type = order_complete | order_update

record OrderReceipt =
  rtype :: receipt_type
  customer_name :: "jsstring option"
  items :: "ReceiptItem list"
  total_price :: number

text \<open>
  The value \<open>JSON.parse\<close> returns. \<open>JSON.parse\<close> is the platform's: it is a parameter
  \<open>JSON_parse\<close> of the model, \<open>None\<close> standing for the \<open>SyntaxError\<close> it throws. The
  TypeScript cast \<open>as OrderReceipt\<close> is unchecked and erased at run time; the typed reading
  of the parsed value is the second parameter, \<open>as_OrderReceipt\<close>, about which nothing is
  assumed.
\<close>

datatype json =
    JNull
  | JBool bool
  | JNum number
  | JStr jsstring
  | JArr "json list"
  | JObj "(jsstring \<times> json) list"

datatype js_exn = SyntaxError | TypeError

text \<open>
  Reading a property: \<open>null.type\<close> throws a \<open>TypeError\<close>, an object yields the value
  stored under the key (the first entry with that key) or \<open>undefined\<close> (\<open>None\<close>), and
  every other JSON value yields
  \<open>undefined\<close> for the two keys the code reads (\<open>type\<close> and \<open>items\<close>), which no
  prototype defines.
\<close>

fun get_prop :: "json \<Rightarrow> jsstring \<Rightarrow> js_exn + json option" where
  "get_prop JNull k = Inl TypeError"
| "get_prop (JObj kvs) k = Inr (map_of kvs k)"
| "get_prop v k = Inr None"

fun isArray :: "json option \<Rightarrow> bool" where
  "isArray (Some (JArr xs)) = True"
| "isArray v = False"

definition recognized_type :: "json option \<Rightarrow> bool" where
  "recognized_type t =
     (t = Some (JStr (js ''order_complete'')) \<or> t = Some (JStr (js ''order_update'')))"

text \<open>The body of the \<open>try\<close> block of \<open>parseReceipt\<close>; \<open>Inl\<close> is an exception thrown.\<close>

definition parseReceipt_try ::
  "(jsstring \<Rightarrow> json option) \<Rightarrow> (json \<Rightarrow> OrderReceipt) \<Rightarrow> jsstring \<Rightarrow> js_exn + OrderReceipt option"
where
  "parseReceipt_try JSON_parse as_OrderReceipt g =
     (case JSON_parse g of
        None \<Rightarrow> Inl SyntaxError
      | Some data \<Rightarrow>
          (case get_prop data (js ''type'') of
             Inl e \<Rightarrow> Inl e
           | Inr t \<Rightarrow>
               if recognized_type t
               then (case get_prop data (js ''items'') of
                       Inl e \<Rightarrow> Inl e
                     | Inr its \<Rightarrow> if isArray its then Inr (Some (as_OrderReceipt data)) else Inr None)
               else Inr None))"

text \<open>\<open>parseReceipt\<close>: no match gives \<open>null\<close>; \<open>catch { return null; }\<close> turns every
  exception of the body into \<open>null\<close>.\<close>

definition parseReceipt ::
  "(jsstring \<Rightarrow> json option) \<Rightarrow> (json \<Rightarrow> OrderReceipt) \<Rightarrow> jsstring \<Rightarrow> OrderReceipt option"
where
  "parseReceipt JSON_parse as_OrderReceipt text =
     (case regex_exec text of
        None \<Rightarrow> None
      | Some (pre, g, rest) \<Rightarrow>
          (case parseReceipt_try JSON_parse as_OrderReceipt g of
             Inl e \<Rightarrow> None
           | Inr r \<Rightarrow> r))"

text \<open>A receipt value for the closed examples.\<close>

definition no_receipt :: OrderReceipt where
  "no_receipt = \<lparr>rtype = order_complete, customer_name = None, items = [], total_price = 0\<rparr>"

section \<open>Order persistence (\<open>types.ts\<close>, \<open>order-service.ts\<close>)\<close>

subsection \<open>Rows\<close>

text \<open>
  The row types of \<open>types.ts\<close>. The insert shapes \<open>NewOrder\<close> and \<open>NewOrderItem\<close> are the
  rows without the \<open>id\<close> the store assigns; the row types extend them by that \<open>id\<close>. A
  UUID is modelled as a natural number. The timestamps the store maintains
  (\<open>created_at\<close>, \<open>started_at\<close>, \<open>completed_at\<close>) are never written by this code and are
  left out.
\<close>

type_synonym uuid = nat

datatype OrderStatus = new | in_progress | completed

record AddOnLineItem =
  name :: jsstring
  qty :: number
  unit_price :: number

record NewOrder =
  order_number :: nat
  customer_name :: "jsstring option"
  status :: OrderStatus
  total_price :: number

record Order = NewOrder +
  id :: uuid

record NewOrderItem =
  order_id :: uuid
  item_name :: jsstring
  size :: jsstring
  temp :: jsstring
  milk :: "jsstring option"
  sweetness :: jsstring
  ice_level :: jsstring
  add_ons :: "AddOnLineItem list"
  item_price :: number
  special_instructions :: "jsstring option"

record OrderItem = NewOrderItem +
  id :: uuid

record OrderWithItems = Order +
  order_items :: "OrderItem list"

subsection \<open>The store\<close>

text \<open>
  The Supabase client is external. The store is modelled as its two tables and the
  source of fresh UUIDs; the five statements the code issues are the functions below.
  Whether a statement fails is the environment's choice: \<open>fails\<close> says which of them
  return an error, and a statement that fails leaves the tables as they were.
\<close>

record database =
  orders :: "Order list"
  order_items :: "OrderItem list"
  next_uuid :: uuid

datatype statement = SelectLatest | InsertOrder | InsertItems | UpdateTotal | DeleteItems

datatype persistence_error =
    FailedToCreateOrder
  | FailedToCreateOrderItems
  | FailedToUpdateOrder
  | FailedToDeleteOrderItems
  | FailedToInsertUpdatedItems
  | Uncaught js_exn

text \<open>\<^verbatim>\<open>.select("order_number").order("order_number", {ascending: false}).limit(1).maybeSingle()\<close>\<close>

definition select_latest :: "database \<Rightarrow> nat option" where
  "select_latest d =
     (case orders d of
        [] \<Rightarrow> None
      | r # rs \<Rightarrow> Some (fold max (map order_number rs) (order_number r)))"

text \<open>\<^verbatim>\<open>.from("orders").insert({...}).select().single()\<close>\<close>

definition insert_order :: "NewOrder \<Rightarrow> database \<Rightarrow> Order \<times> database" where
  "insert_order row d =
     (let r = NewOrder.extend row (Order.fields (next_uuid d))
      in (r, d\<lparr>orders := orders d @ [r], next_uuid := Suc (next_uuid d)\<rparr>))"

text \<open>\<^verbatim>\<open>.from("order_items").insert(itemRows).select()\<close>\<close>

fun assign_ids :: "uuid \<Rightarrow> NewOrderItem list \<Rightarrow> OrderItem list" where
  "assign_ids n [] = []"
| "assign_ids n (row # rows) = NewOrderItem.extend row (OrderItem.fields n) # assign_ids (Suc n) rows"

definition insert_items :: "NewOrderItem list \<Rightarrow> database \<Rightarrow> OrderItem list \<times> database" where
  "insert_items rows d =
     (let rs = assign_ids (next_uuid d) rows
      in (rs, d\<lparr>order_items := order_items d @ rs, next_uuid := next_uuid d + length rows\<rparr>))"

text \<open>\<^verbatim>\<open>.from("orders").update({ total_price: newTotal }).eq("id", orderId)\<close>\<close>

definition update_total :: "uuid \<Rightarrow> number \<Rightarrow> database \<Rightarrow> database" where
  "update_total orderId newTotal d =
     d\<lparr>orders := map (\<lambda>r. if Order.id r = orderId then r\<lparr>total_price := newTotal\<rparr> else r) (orders d)\<rparr>"

text \<open>\<^verbatim>\<open>.from("order_items").delete().eq("order_id", orderId)\<close>\<close>

definition delete_items :: "uuid \<Rightarrow> database \<Rightarrow> database" where
  "delete_items orderId d = d\<lparr>order_items := filter (\<lambda>r. order_id r \<noteq> orderId) (order_items d)\<rparr>"

text \<open>Reading back: the order with a given id, and the items of an order.\<close>

definition find_order :: "database \<Rightarrow> uuid \<Rightarrow> Order option" where
  "find_order d orderId = find (\<lambda>r. Order.id r = orderId) (orders d)"

definition items_of :: "database \<Rightarrow> uuid \<Rightarrow> OrderItem list" where
  "items_of d orderId = filter (\<lambda>r. order_id r = orderId) (order_items d)"

subsection \<open>\<open>toItemRows\<close>, \<open>saveOrder\<close>, \<open>updateOrder\<close>\<close>

text \<open>
  \<open>toItemRows\<close> maps the items of a receipt to rows, in order. \<open>item.add_ons.map(...)\<close>
  throws a \<open>TypeError\<close> on an item that has no array there; \<open>items.map\<close> then throws
  it, and no rows are produced. The object literal of the add-on is \<open>addon_row\<close>, that of
  the row is \<open>item_row\<close>.
\<close>

definition addon_row :: "ReceiptAddOn \<Rightarrow> AddOnLineItem" where
  "addon_row a = \<lparr>name = ReceiptAddOn.name a, qty = ReceiptAddOn.qty a, unit_price = price a\<rparr>"

definition item_row :: "uuid \<Rightarrow> ReceiptItem \<Rightarrow> ReceiptAddOn list \<Rightarrow> NewOrderItem" where
  "item_row orderId item addOns =
     \<lparr>order_id = orderId,
      item_name = ReceiptItem.item_name item,
      size = ReceiptItem.size item,
      temp = ReceiptItem.temp item,
      milk = ReceiptItem.milk item,
      sweetness = ReceiptItem.sweetness item,
      ice_level = ReceiptItem.ice_level item,
      add_ons = map addon_row addOns,
      item_price = ReceiptItem.item_price item,
      special_instructions = ReceiptItem.special_instructions item\<rparr>"

fun toItemRows :: "uuid \<Rightarrow> ReceiptItem list \<Rightarrow> js_exn + NewOrderItem list" where
  "toItemRows orderId [] = Inr []"
| "toItemRows orderId (item # its) =
     (case ReceiptItem.add_ons item of
        None \<Rightarrow> Inl TypeError
      | Some addOns \<Rightarrow>
          (case toItemRows orderId its of
             Inl e \<Rightarrow> Inl e
           | Inr rows \<Rightarrow> Inr (item_row orderId item addOns # rows)))"

text \<open>
  \<open>saveOrder\<close>. The error of the first statement is not inspected by the code: a failed
  select yields no row, and the order number becomes 1. A thrown \<open>Error\<close> is the \<open>Inl\<close>
  result; the store is returned in either case, since the statements before the failing
  one have taken effect. The \<open>TypeError\<close> of \<open>toItemRows\<close> is not caught here either: it
  leaves \<open>saveOrder\<close> after the order row is inserted, and \<open>updateOrder\<close> after the old
  items are deleted.
\<close>

definition saveOrder ::
  "(statement \<Rightarrow> bool) \<Rightarrow> OrderReceipt \<Rightarrow> database \<Rightarrow> database \<times> (persistence_error + OrderWithItems)"
where
  "saveOrder fails receipt d =
     (let latest = (if fails SelectLatest then None else select_latest d);
          orderNumber = (case latest of None \<Rightarrow> 0 | Some n \<Rightarrow> n) + 1
      in if fails InsertOrder then (d, Inl FailedToCreateOrder)
         else
           let (order, d1) = insert_order
                 \<lparr>order_number = orderNumber,
                  customer_name = OrderReceipt.customer_name receipt,
                  status = new,
                  total_price = OrderReceipt.total_price receipt\<rparr> d
           in (case toItemRows (Order.id order) (items receipt) of
                 Inl e \<Rightarrow> (d1, Inl (Uncaught e))
               | Inr itemRows \<Rightarrow>
                   if fails InsertItems then (d1, Inl FailedToCreateOrderItems)
                   else
                     let (orderItems, d2) = insert_items itemRows d1
                     in (d2, Inr (Order.extend order (OrderWithItems.fields orderItems)))))"

definition updateOrder ::
  "(statement \<Rightarrow> bool) \<Rightarrow> uuid \<Rightarrow> ReceiptItem list \<Rightarrow> number \<Rightarrow> database
     \<Rightarrow> database \<times> (persistence_error + unit)"
where
  "updateOrder fails orderId its newTotal d =
     (if fails UpdateTotal then (d, Inl FailedToUpdateOrder)
      else
        let d1 = update_total orderId newTotal d
        in if fails DeleteItems then (d1, Inl FailedToDeleteOrderItems)
           else
             let d2 = delete_items orderId d1
             in (case toItemRows orderId its of
                   Inl e \<Rightarrow> (d2, Inl (Uncaught e))
                 | Inr itemRows \<Rightarrow>
                     if fails InsertItems then (d2, Inl FailedToInsertUpdatedItems)
                     else (snd (insert_items itemRows d2), Inr ())))"

section \<open>Speech playback adapter (\<open>useTextToSpeech.ts\<close>)\<close>

text \<open>
  Every call of \<open>speak\<close> that gets past the empty-text check creates its own
  \<open>AbortController\<close> and, later, its own \<open>Audio\<close> element; the model calls that a session
  and numbers the sessions in the order of their creation. A session records whether its
  controller has been aborted and which \<open>await\<close> of \<open>speak\<close> it is suspended at.
\<close>

type_synonym session_id = nat

datatype phase =
    Fetching       \<comment> \<open>\<open>await fetch("/api/tts", ...)\<close>\<close>
  | ReadingBlob    \<comment> \<open>\<open>await response.blob()\<close>\<close>
  | Playing        \<comment> \<open>inside the promise, audio playing\<close>
  | Draining       \<comment> \<open>\<open>onended\<close> has run, the trailing-buffer timeout is pending\<close>
  | Finished       \<comment> \<open>\<open>speak\<close> has returned, or can no longer continue\<close>

record tts_session =
  aborted :: bool
  phase :: phase

record tts =
  sessions :: "tts_session list"
  abortControllerRef :: "session_id option"
  audioRef :: "session_id option"
  isSpeaking :: bool

text \<open>
  What the adapter does to the outside: requests to the platform, the call of
  \<open>onEndRef.current\<close>, and the return of \<open>speak\<close> (which lets its caller continue).
\<close>

datatype tts_effect =
    Abort session_id           \<comment> \<open>\<open>controller.abort()\<close>\<close>
  | PauseAudio session_id      \<comment> \<open>\<open>audio.pause(); audio.src = ""\<close>\<close>
  | FetchTts session_id jsstring
  | PlayAudio session_id
  | SetTailTimeout session_id
  | OnEnd
  | SpeakReturned session_id

definition set_phase :: "session_id \<Rightarrow> phase \<Rightarrow> tts \<Rightarrow> tts" where
  "set_phase i p t = t\<lparr>sessions := (sessions t)[i := (sessions t ! i)\<lparr>phase := p\<rparr>]\<rparr>"

definition in_phase :: "tts \<Rightarrow> session_id \<Rightarrow> phase \<Rightarrow> bool" where
  "in_phase t i p = (i < length (sessions t) \<and> phase (sessions t ! i) = p)"

definition is_aborted :: "tts \<Rightarrow> session_id \<Rightarrow> bool" where
  "is_aborted t i = (i < length (sessions t) \<and> aborted (sessions t ! i))"

text \<open>\<open>stop\<close>. As the source notes, \<open>onEnd\<close> is not called here.\<close>

definition stop :: "tts \<Rightarrow> tts \<times> tts_effect list" where
  "stop t =
     (let (t1, e1) =
            (case abortControllerRef t of
               Some c \<Rightarrow> (t\<lparr>sessions := (sessions t)[c := (sessions t ! c)\<lparr>aborted := True\<rparr>],
                           abortControllerRef := None\<rparr>, [Abort c])
             | None \<Rightarrow> (t, []));
          (t2, e2) =
            (case audioRef t1 of
               Some a \<Rightarrow> (t1\<lparr>audioRef := None\<rparr>, [PauseAudio a])
             | None \<Rightarrow> (t1, []))
      in (t2\<lparr>isSpeaking := False\<rparr>, e1 @ e2))"

text \<open>
  \<open>speak\<close>, up to its first \<open>await\<close>. The result says which session was created, if any;
  for an empty text \<open>speak\<close> returns at once.
\<close>

definition speak :: "jsstring \<Rightarrow> tts \<Rightarrow> tts \<times> tts_effect list \<times> session_id option" where
  "speak text t =
     (let (t1, e1) = stop t
      in if trim text = [] then (t1, e1, None)
         else
           let c = length (sessions t1)
           in (t1\<lparr>sessions := sessions t1 @ [\<lparr>aborted = False, phase = Fetching\<rparr>],
                  abortControllerRef := Some c,
                  isSpeaking := True\<rparr>,
               e1 @ [FetchTts c text], Some c))"

text \<open>
  The continuations of \<open>speak\<close>, one per event the platform can deliver to a suspended
  session. An event is delivered only to a session suspended at the \<open>await\<close> or handler
  that receives it.
\<close>

datatype tts_event =
    FetchOk session_id             \<comment> \<open>the fetch resolved, \<open>response.ok\<close>\<close>
  | FetchNotOk session_id          \<comment> \<open>the fetch resolved, \<open>!response.ok\<close>\<close>
  | FetchRejected session_id bool  \<comment> \<open>fetch or blob rejected; \<open>True\<close> for an \<open>AbortError\<close>\<close>
  | BlobReady session_id           \<comment> \<open>\<open>response.blob()\<close> resolved\<close>
  | AudioEnded session_id          \<comment> \<open>\<open>audio.onended\<close>\<close>
  | TailElapsed session_id         \<comment> \<open>the timeout set by \<open>onended\<close>\<close>
  | AudioError session_id          \<comment> \<open>\<open>audio.onerror\<close>\<close>
  | PlayRejected session_id        \<comment> \<open>\<open>audio.play()\<close> rejected\<close>

text \<open>After the promise resolves: \<open>setIsSpeaking(false); onEndRef.current?.()\<close>.\<close>

definition completed_speech :: "session_id \<Rightarrow> tts \<Rightarrow> tts \<times> tts_effect list" where
  "completed_speech i t = (set_phase i Finished (t\<lparr>isSpeaking := False\<rparr>), [OnEnd, SpeakReturned i])"

fun tts_step :: "tts_event \<Rightarrow> tts \<Rightarrow> tts \<times> tts_effect list" where
  "tts_step (FetchOk i) t =
     (if in_phase t i Fetching then (set_phase i ReadingBlob t, []) else (t, []))"
| "tts_step (FetchNotOk i) t =
     (if in_phase t i Fetching then completed_speech i t else (t, []))"
| "tts_step (FetchRejected i abort_error) t =
     (if in_phase t i Fetching \<or> in_phase t i ReadingBlob
      then if abort_error then (set_phase i Finished t, [SpeakReturned i])
           else completed_speech i t
      else (t, []))"
| "tts_step (BlobReady i) t =
     (if in_phase t i ReadingBlob
      then if is_aborted t i then (set_phase i Finished t, [SpeakReturned i])
           else (set_phase i Playing (t\<lparr>audioRef := Some i\<rparr>), [PlayAudio i])
      else (t, []))"
| "tts_step (AudioEnded i) t =
     (if in_phase t i Playing then (set_phase i Draining t, [SetTailTimeout i]) else (t, []))"
| "tts_step (TailElapsed i) t =
     (if in_phase t i Draining
      then if is_aborted t i then (set_phase i Finished t, [])
           else completed_speech i (t\<lparr>audioRef := None\<rparr>)
      else (t, []))"
| "tts_step (AudioError i) t =
     (if in_phase t i Playing \<or> in_phase t i Draining
      then completed_speech i (t\<lparr>audioRef := None\<rparr>)
      else (t, []))"
| "tts_step (PlayRejected i) t =
     (if in_phase t i Playing \<or> in_phase t i Draining
      then completed_speech i (t\<lparr>audioRef := None\<rparr>)
      else (t, []))"

definition tts_init :: tts where
  "tts_init = \<lparr>sessions = [], abortControllerRef = None, audioRef = None, isSpeaking = False\<rparr>"

section \<open>Speech capture adapter (\<open>useSpeechRecognition.ts\<close>)\<close>

type_synonym recognition_id = nat

record recognizer =
  isSupported :: bool
  recognitionRef :: "recognition_id option"
  finalTranscriptRef :: jsstring
  isListening :: bool
  transcript :: jsstring
  created :: nat   \<comment> \<open>how many \<open>SpeechRecognition\<close> objects have been constructed\<close>

datatype mic_effect =
    RecognitionAbort recognition_id
  | RecognitionStart recognition_id
  | RecognitionStop recognition_id

definition startListening :: "recognizer \<Rightarrow> recognizer \<times> mic_effect list" where
  "startListening r =
     (if \<not> isSupported r then (r, [])
      else
        let (r1, e1) =
              (case recognitionRef r of
                 Some i \<Rightarrow> (r\<lparr>recognitionRef := None\<rparr>, [RecognitionAbort i])
               | None \<Rightarrow> (r, []));
            i = created r1
        in (r1\<lparr>finalTranscriptRef := [], recognitionRef := Some i, created := Suc i\<rparr>,
            e1 @ [RecognitionStart i]))"

definition stopListening :: "recognizer \<Rightarrow> recognizer \<times> mic_effect list" where
  "stopListening r =
     (r\<lparr>isListening := False\<rparr>,
      case recognitionRef r of Some i \<Rightarrow> [RecognitionStop i] | None \<Rightarrow> [])"

text \<open>The handlers \<open>onstart\<close>, \<open>onresult\<close>, \<open>onend\<close> and \<open>onerror\<close>. \<open>recognition_onend\<close>
  also returns the text it passes to \<open>onFinalTranscript\<close>, if any.\<close>

definition recognition_onstart :: "recognizer \<Rightarrow> recognizer" where
  "recognition_onstart r = r\<lparr>isListening := True, transcript := []\<rparr>"

definition recognition_onresult :: "jsstring \<Rightarrow> jsstring \<Rightarrow> recognizer \<Rightarrow> recognizer" where
  "recognition_onresult finalText interimText r =
     (let r1 = (if finalText \<noteq> [] then r\<lparr>finalTranscriptRef := finalTranscriptRef r @ finalText\<rparr> else r)
      in r1\<lparr>transcript := finalTranscriptRef r1 @ interimText\<rparr>)"

definition recognition_onend :: "recognizer \<Rightarrow> recognizer \<times> jsstring option" where
  "recognition_onend r =
     (let final = trim (finalTranscriptRef r)
      in (r\<lparr>isListening := False, recognitionRef := None, transcript := []\<rparr>,
          if final \<noteq> [] then Some final else None))"

definition recognition_onerror :: "recognizer \<Rightarrow> recognizer" where
  "recognition_onerror r = r\<lparr>isListening := False, recognitionRef := None\<rparr>"

definition mic_init :: "bool \<Rightarrow> recognizer" where
  "mic_init supported =
     \<lparr>isSupported = supported, recognitionRef = None, finalTranscriptRef = [],
      isListening = False, transcript = [], created = 0\<rparr>"

section \<open>The turn controller (\<open>ChatInterface.tsx\<close>)\<close>

subsection \<open>Messages\<close>

text \<open>
  Message ids are the strings \<open>"greeting"\<close>, \<open>`user-${Date.now()}`\<close>,
  \<open>`cashier-${Date.now()}`\<close> and \<open>`error-${Date.now()}`\<close>; the clock value is an input of
  the event that creates the message.
\<close>

datatype msg_id = Greeting_id | User_id nat | Cashier_id nat | Error_id nat

datatype role = Cashier | Customer

record ChatMessage =
  id :: msg_id
  role :: role
  content :: jsstring
  rawContent :: "jsstring option"
  receipt :: "OrderReceipt option"
  orderNumber :: "nat option"
  orderId :: "uuid option"
  timestamp :: nat

datatype api_role = user | assistant

type_synonym ApiMessage = "api_role \<times> jsstring"

definition GREETING_TEXT :: jsstring where
  "GREETING_TEXT =
     js ''Hey there! I'm Alex, your cashier at NYC Coffee. You can check out our menu with the 'View Menu' button above, or just tell me what you're in the mood for ''
     @ [0x2014] @ js '' I'm happy to help you pick something out!''"

definition makeGreeting :: "nat \<Rightarrow> ChatMessage" where
  "makeGreeting now =
     \<lparr>id = Greeting_id, role = Cashier, content = GREETING_TEXT, rawContent = None,
      receipt = None, orderNumber = None, orderId = None, timestamp = now\<rparr>"

definition plain_message :: "msg_id \<Rightarrow> role \<Rightarrow> jsstring \<Rightarrow> nat \<Rightarrow> ChatMessage" where
  "plain_message i r text now =
     \<lparr>id = i, role = r, content = text, rawContent = None,
      receipt = None, orderNumber = None, orderId = None, timestamp = now\<rparr>"

definition toApiMessages :: "ChatMessage list \<Rightarrow> ApiMessage list" where
  "toApiMessages msgs =
     dropWhile (\<lambda>m. fst m = assistant)
       (map (\<lambda>m. (if role m = Cashier then assistant else user,
                   case rawContent m of Some raw \<Rightarrow> raw | None \<Rightarrow> content m))
            (filter (\<lambda>m. ChatMessage.id m \<noteq> Greeting_id) msgs))"

subsection \<open>State\<close>

text \<open>
  The locals of one invocation of \<open>handleSend\<close>, which live across its \<open>await\<close>s.
  \<open>pending\<close> holds until the invocation has run its \<open>finally\<close> block.
\<close>

record turn =
  fullContent :: jsstring
  streamingId :: "msg_id option"
  ttsStarted :: bool
  pending :: bool

text \<open>
  What the controller does to the outside, in order. \<open>ActivateMic\<close> and \<open>SpeakMessage\<close>
  mark the calls of \<open>activateMic\<close> and \<open>speakMessage\<close>.
\<close>

datatype effect =
    ActivateMic
  | SpeakMessage msg_id jsstring
  | FetchChat nat "ApiMessage list"
  | ClearTimeout nat
  | SetTimeout nat nat
  | Tts tts_effect
  | Mic mic_effect
  | ConsoleError

text \<open>
  The component's state and refs, the two hooks it owns, the store, and the platform's
  part: the silence-guard timers that are armed (\<open>timers\<close>), the invocations of
  \<open>handleSend\<close> (\<open>turns\<close>) and, for each speech session, the message \<open>speakMessage\<close>
  started it for (\<open>speakers\<close>). The state variables \<open>voiceMode\<close> and \<open>isMuted\<close> are copied
  to their refs by an effect after each render; the model keeps one field for each pair.
  The presentational state (\<open>mounted\<close>, \<open>hasStarted\<close>, \<open>menuOpen\<close>, \<open>micGlowing\<close>) is left
  out.
\<close>

record controller =
  messages :: "ChatMessage list"
  isTyping :: bool
  isResponding :: bool
  speakingMessageId :: "msg_id option"
  voiceModeRef :: bool
  isMutedRef :: bool
  isRespondingRef :: bool
  orderCompleteRef :: bool
  ttsEndedWhileRespondingRef :: bool
  modifyingOrderIdRef :: "uuid option"
  modifyingReceiptMsgIdRef :: "msg_id option"
  autoListenTimerRef :: "nat option"
  speech :: tts
  mic :: recognizer
  store :: database
  timers :: "nat list"
  nextTimer :: nat
  turns :: "turn list"
  speakers :: "(session_id \<times> msg_id) list"
  trace :: "effect list"

definition emit :: "effect list \<Rightarrow> controller \<Rightarrow> controller" where
  "emit es s = s\<lparr>trace := trace s @ es\<rparr>"

definition initial :: "bool \<Rightarrow> nat \<Rightarrow> controller" where
  "initial supported now =
     \<lparr>messages = [makeGreeting now], isTyping = False, isResponding = False,
      speakingMessageId = None, voiceModeRef = supported, isMutedRef = False,
      isRespondingRef = False, orderCompleteRef = False, ttsEndedWhileRespondingRef = False,
      modifyingOrderIdRef = None, modifyingReceiptMsgIdRef = None, autoListenTimerRef = None,
      speech = tts_init, mic = mic_init supported,
      store = \<lparr>orders = [], order_items = [], next_uuid = 0\<rparr>,
      timers = [], nextTimer = 0, turns = [], speakers = [], trace = []\<rparr>"

subsection \<open>Microphone and silence guard\<close>

definition clearAutoListenTimer :: "controller \<Rightarrow> controller" where
  "clearAutoListenTimer s =
     (case autoListenTimerRef s of
        None \<Rightarrow> s
      | Some t \<Rightarrow> emit [ClearTimeout t] (s\<lparr>timers := removeAll t (timers s), autoListenTimerRef := None\<rparr>))"

definition start_listening :: "controller \<Rightarrow> controller" where
  "start_listening s = (let (r, es) = startListening (mic s) in emit (map Mic es) (s\<lparr>mic := r\<rparr>))"

definition stop_listening :: "controller \<Rightarrow> controller" where
  "stop_listening s = (let (r, es) = stopListening (mic s) in emit (map Mic es) (s\<lparr>mic := r\<rparr>))"

definition activateMic :: "controller \<Rightarrow> controller" where
  "activateMic s =
     (let s1 = start_listening (clearAutoListenTimer (emit [ActivateMic] s));
          t = nextTimer s1
      in emit [SetTimeout t 5000]
           (s1\<lparr>autoListenTimerRef := Some t, timers := timers s1 @ [t], nextTimer := Suc t\<rparr>))"

definition onTtsEnd :: "controller \<Rightarrow> controller" where
  "onTtsEnd s =
     (if orderCompleteRef s then s
      else if \<not> voiceModeRef s \<or> isMutedRef s then s
      else if isRespondingRef s then s\<lparr>ttsEndedWhileRespondingRef := True\<rparr>
      else activateMic s)"

subsection \<open>Speaking\<close>

text \<open>What the adapter's effects do in the controller: \<open>onEnd\<close> is \<open>onTtsEnd\<close>, and when
  \<open>speak\<close> returns, \<open>speakMessage\<close> clears \<open>speakingMessageId\<close> if it still names its
  message.\<close>

definition clear_speaking :: "msg_id \<Rightarrow> controller \<Rightarrow> controller" where
  "clear_speaking m s =
     s\<lparr>speakingMessageId := (if speakingMessageId s = Some m then None else speakingMessageId s)\<rparr>"

fun on_tts_effect :: "controller \<Rightarrow> tts_effect \<Rightarrow> controller" where
  "on_tts_effect s OnEnd = onTtsEnd (emit [Tts OnEnd] s)"
| "on_tts_effect s (SpeakReturned i) =
     (case map_of (speakers s) i of None \<Rightarrow> s | Some m \<Rightarrow> clear_speaking m s)"
| "on_tts_effect s e = emit [Tts e] s"

definition stop_speech :: "controller \<Rightarrow> controller" where
  "stop_speech s = (let (t, es) = stop (speech s) in foldl on_tts_effect (s\<lparr>speech := t\<rparr>) es)"

definition speakMessage :: "msg_id \<Rightarrow> jsstring \<Rightarrow> controller \<Rightarrow> controller" where
  "speakMessage m text s =
     (let s1 = emit [SpeakMessage m text] (s\<lparr>speakingMessageId := Some m\<rparr>);
          (t, es, session) = speak text (speech s1);
          s2 = foldl on_tts_effect (s1\<lparr>speech := t\<rparr>) es
      in case session of
           None \<Rightarrow> clear_speaking m s2
         | Some i \<Rightarrow> s2\<lparr>speakers := (i, m) # speakers s2\<rparr>)"

definition speech_event :: "tts_event \<Rightarrow> controller \<Rightarrow> controller" where
  "speech_event ev s = (let (t, es) = tts_step ev (speech s) in foldl on_tts_effect (s\<lparr>speech := t\<rparr>) es)"

subsection \<open>\<open>handleSend\<close>\<close>

text \<open>
  An invocation of \<open>handleSend\<close> runs in pieces: the part before the \<open>fetch\<close>
  (\<open>handleSend\<close>), one piece per chunk the reader yields (\<open>stream_chunk\<close>), and the part
  after the loop (\<open>stream_end\<close>) or the \<open>catch\<close> block (\<open>stream_error\<close>), each followed by
  \<open>finally\<close>. Invocation \<open>k\<close> is the \<open>k\<close>-th entry of \<open>turns\<close>. The source passes no
  abort signal to \<open>fetch("/api/chat")\<close>, so an invocation stays pending until its own
  stream ends or fails. The \<open>await\<close> of the persistence call inside \<open>stream_end\<close> is not
  split: the store answers in the same step, and which of its statements fail is an input
  of the event. The time stamp of the streamed message, taken in the source when the
  response arrives, is the clock of the first chunk.
\<close>

definition handleSend :: "jsstring \<Rightarrow> nat \<Rightarrow> controller \<Rightarrow> controller" where
  "handleSend text now s =
     (let s1 = stop_speech (clearAutoListenTimer s);
          s2 = s1\<lparr>speakingMessageId := None, ttsEndedWhileRespondingRef := False\<rparr>;
          userMsg = plain_message (User_id now) Customer text now;
          historySnapshot = messages s @ [userMsg]
      in emit [FetchChat (length (turns s2)) (toApiMessages historySnapshot)]
           (s2\<lparr>messages := messages s2 @ [userMsg],
               isTyping := True, isResponding := True, isRespondingRef := True,
               turns := turns s2 @ [\<lparr>fullContent = [], streamingId = None,
                                      ttsStarted = False, pending = True\<rparr>]\<rparr>))"

definition handleSend_finally :: "nat \<Rightarrow> controller \<Rightarrow> controller" where
  "handleSend_finally k s =
     (let s1 = s\<lparr>isResponding := False, isRespondingRef := False, isTyping := False,
                 turns := (turns s)[k := (turns s ! k)\<lparr>pending := False\<rparr>]\<rparr>
      in if ttsEndedWhileRespondingRef s1 \<and> voiceModeRef s1 \<and> \<not> isMutedRef s1 \<and> \<not> orderCompleteRef s1
         then activateMic (s1\<lparr>ttsEndedWhileRespondingRef := False\<rparr>)
         else s1)"

text \<open>
  One iteration of the read loop, on the locals of the invocation: the chunk is appended,
  and speech is triggered early, once, when the accumulated text has reached 100 code
  units. The second component is the text passed to \<open>speakMessage\<close>, if any.
\<close>

definition receive_chunk ::
  "bool \<Rightarrow> bool \<Rightarrow> msg_id \<Rightarrow> jsstring \<Rightarrow> turn \<Rightarrow> turn \<times> jsstring option"
where
  "receive_chunk voice muted sid chunk t =
     (let full = fullContent t @ chunk;
          fire = (\<not> ttsStarted t \<and> voice \<and> \<not> muted \<and> 100 \<le> length full);
          earlyText = trim (stripReceiptBlock full)
      in (t\<lparr>fullContent := full, streamingId := Some sid, ttsStarted := (ttsStarted t \<or> fire)\<rparr>,
          if fire \<and> earlyText \<noteq> [] then Some earlyText else None))"

definition stream_chunk :: "nat \<Rightarrow> jsstring \<Rightarrow> nat \<Rightarrow> controller \<Rightarrow> controller" where
  "stream_chunk k chunk now s =
     (if k < length (turns s) \<and> pending (turns s ! k)
      then
        let t = turns s ! k;
            sid = (case streamingId t of None \<Rightarrow> Cashier_id now | Some i \<Rightarrow> i);
            (t', say) = receive_chunk (voiceModeRef s) (isMutedRef s) sid chunk t;
            s1 = (case streamingId t of
                    None \<Rightarrow> s\<lparr>isTyping := False,
                               messages := messages s @ [plain_message sid Cashier (fullContent t') now]\<rparr>
                  | Some i \<Rightarrow> s\<lparr>messages := map (\<lambda>m. if ChatMessage.id m = sid
                                                        then m\<lparr>content := fullContent t'\<rparr> else m)
                                                  (messages s)\<rparr>);
            s2 = s1\<lparr>turns := (turns s1)[k := t']\<rparr>
        in (case say of None \<Rightarrow> s2 | Some earlyText \<Rightarrow> speakMessage sid earlyText s2)
      else s)"

text \<open>After the loop: the receipt, if there is one, is persisted and shown.\<close>

definition modifying :: "controller \<Rightarrow> (uuid \<times> msg_id) option" where
  "modifying s =
     (case modifyingOrderIdRef s of
        None \<Rightarrow> None
      | Some oid \<Rightarrow> (case modifyingReceiptMsgIdRef s of None \<Rightarrow> None | Some m \<Rightarrow> Some (oid, m)))"

definition logged :: "(persistence_error + 'a) \<Rightarrow> controller \<Rightarrow> controller" where
  "logged result s = (case result of Inl e \<Rightarrow> emit [ConsoleError] s | Inr v \<Rightarrow> s)"

definition finish_update ::
  "(statement \<Rightarrow> bool) \<Rightarrow> uuid \<Rightarrow> msg_id \<Rightarrow> msg_id \<Rightarrow> jsstring \<Rightarrow> jsstring \<Rightarrow> OrderReceipt
     \<Rightarrow> controller \<Rightarrow> controller"
where
  "finish_update fails oid savedModReceiptMsgId sid full displayContent r s =
     (let (d, result) = updateOrder fails oid (items r) (OrderReceipt.total_price r) (store s);
          s1 = logged result (s\<lparr>store := d\<rparr>);
          s2 = stop_listening (clearAutoListenTimer
                 (s1\<lparr>modifyingOrderIdRef := None, modifyingReceiptMsgIdRef := None,
                     orderCompleteRef := True\<rparr>))
      in s2\<lparr>messages :=
              map (\<lambda>m. if ChatMessage.id m = sid
                        then m\<lparr>content := displayContent, rawContent := Some full\<rparr>
                        else if ChatMessage.id m = savedModReceiptMsgId
                        then m\<lparr>receipt := Some r\<rparr>
                        else m) (messages s2)\<rparr>)"

definition finish_complete ::
  "(statement \<Rightarrow> bool) \<Rightarrow> msg_id \<Rightarrow> jsstring \<Rightarrow> jsstring \<Rightarrow> OrderReceipt \<Rightarrow> controller \<Rightarrow> controller"
where
  "finish_complete fails sid full displayContent r s =
     (let (d, result) = saveOrder fails r (store s);
          (number, savedOrderId) =
             (case result of
                Inl e \<Rightarrow> (0, None)
              | Inr saved \<Rightarrow> (order_number saved, Some (Order.id saved)));
          s1 = logged result (s\<lparr>store := d\<rparr>);
          s2 = stop_listening (clearAutoListenTimer (s1\<lparr>orderCompleteRef := True\<rparr>))
      in s2\<lparr>messages :=
              map (\<lambda>m. if ChatMessage.id m = sid
                        then m\<lparr>content := displayContent, rawContent := Some full,
                               receipt := Some r, orderNumber := Some number,
                               orderId := savedOrderId\<rparr>
                        else m) (messages s2)\<rparr>)"

definition finish_receipt ::
  "(statement \<Rightarrow> bool) \<Rightarrow> msg_id \<Rightarrow> jsstring \<Rightarrow> jsstring \<Rightarrow> OrderReceipt \<Rightarrow> controller \<Rightarrow> controller"
where
  "finish_receipt fails sid full displayContent r s =
     (case (if rtype r = order_update then modifying s else None) of
        Some (oid, savedModReceiptMsgId) \<Rightarrow>
          finish_update fails oid savedModReceiptMsgId sid full displayContent r s
      | None \<Rightarrow>
          if rtype r = order_complete then finish_complete fails sid full displayContent r s
          else s)"

text \<open>The text spoken after the stream, unless speech was already triggered early.\<close>

definition final_tts :: "bool \<Rightarrow> bool \<Rightarrow> turn \<Rightarrow> jsstring \<Rightarrow> jsstring option" where
  "final_tts voice muted t displayContent =
     (let ttsText = trim displayContent
      in if \<not> ttsStarted t \<and> voice \<and> \<not> muted \<and> ttsText \<noteq> [] then Some ttsText else None)"

definition display_content ::
  "(jsstring \<Rightarrow> json option) \<Rightarrow> (json \<Rightarrow> OrderReceipt) \<Rightarrow> jsstring \<Rightarrow> jsstring"
where
  "display_content JSON_parse as_OrderReceipt full =
     (case parseReceipt JSON_parse as_OrderReceipt full of
        Some r \<Rightarrow> stripReceiptBlock full
      | None \<Rightarrow> full)"

definition SORRY_TEXT :: jsstring where
  "SORRY_TEXT = js ''Sorry about that '' @ [0x2014] @ js '' could you repeat your order?''"

definition stream_end ::
  "(jsstring \<Rightarrow> json option) \<Rightarrow> (json \<Rightarrow> OrderReceipt) \<Rightarrow> nat \<Rightarrow> (statement \<Rightarrow> bool) \<Rightarrow> nat
     \<Rightarrow> controller \<Rightarrow> controller"
where
  "stream_end JSON_parse as_OrderReceipt k fails now s =
     (if k < length (turns s) \<and> pending (turns s ! k)
      then
        let t = turns s ! k
        in (case streamingId t of
              None \<Rightarrow>
                handleSend_finally k
                  (s\<lparr>isTyping := False,
                     messages := messages s @ [plain_message (Cashier_id now) Cashier SORRY_TEXT now]\<rparr>)
            | Some sid \<Rightarrow>
                let full = fullContent t;
                    displayContent = display_content JSON_parse as_OrderReceipt full;
                    s1 = (case parseReceipt JSON_parse as_OrderReceipt full of
                            Some r \<Rightarrow> finish_receipt fails sid full displayContent r s
                          | None \<Rightarrow> s);
                    s2 = (case final_tts (voiceModeRef s1) (isMutedRef s1) t displayContent of
                            Some ttsText \<Rightarrow> speakMessage sid ttsText s1
                          | None \<Rightarrow> s1)
                in handleSend_finally k s2)
      else s)"

definition stream_error :: "nat \<Rightarrow> nat \<Rightarrow> controller \<Rightarrow> controller" where
  "stream_error k now s =
     (if k < length (turns s) \<and> pending (turns s ! k)
      then
        let s1 = emit [ConsoleError] s
        in handleSend_finally k
             (s1\<lparr>isTyping := False,
                 messages := messages s1 @
                   [plain_message (Error_id now) Cashier
                      (js ''Something went wrong on my end. Give me a second and try again.'') now]\<rparr>)
      else s)"

text \<open>
  The read loop seen from one invocation: the texts it passes to \<open>speakMessage\<close>, in order,
  when the reader yields the given chunks and then ends, and \<open>voiceModeRef\<close> and
  \<open>isMutedRef\<close> keep the given values.
\<close>

fun stream_speech ::
  "(jsstring \<Rightarrow> json option) \<Rightarrow> (json \<Rightarrow> OrderReceipt) \<Rightarrow> bool \<Rightarrow> bool \<Rightarrow> msg_id
     \<Rightarrow> jsstring list \<Rightarrow> turn \<Rightarrow> jsstring list"
where
  "stream_speech JSON_parse as_OrderReceipt voice muted sid [] t =
     (case streamingId t of
        None \<Rightarrow> []
      | Some i \<Rightarrow>
          (case final_tts voice muted t (display_content JSON_parse as_OrderReceipt (fullContent t)) of
             Some ttsText \<Rightarrow> [ttsText]
           | None \<Rightarrow> []))"
| "stream_speech JSON_parse as_OrderReceipt voice muted sid (chunk # chunks) t =
     (let (t', say) = receive_chunk voice muted sid chunk t
      in (case say of None \<Rightarrow> [] | Some earlyText \<Rightarrow> [earlyText])
         @ stream_speech JSON_parse as_OrderReceipt voice muted sid chunks t')"

definition new_turn :: turn where
  "new_turn = \<lparr>fullContent = [], streamingId = None, ttsStarted = False, pending = True\<rparr>"

subsection \<open>The other handlers\<close>

definition handleBegin :: "controller \<Rightarrow> controller" where
  "handleBegin s = speakMessage Greeting_id GREETING_TEXT s"

definition handleBeginText :: "controller \<Rightarrow> controller" where
  "handleBeginText s = s\<lparr>voiceModeRef := False\<rparr>"

definition handleNewOrder :: "nat \<Rightarrow> controller \<Rightarrow> controller" where
  "handleNewOrder now s =
     (let s1 = stop_speech (clearAutoListenTimer s);
          s2 = s1\<lparr>speakingMessageId := None, orderCompleteRef := False,
                  ttsEndedWhileRespondingRef := False,
                  modifyingOrderIdRef := None, modifyingReceiptMsgIdRef := None,
                  messages := [makeGreeting now],
                  isTyping := False, isResponding := False, isRespondingRef := False\<rparr>
      in speakMessage Greeting_id GREETING_TEXT s2)"

definition handleModifyOrder :: "msg_id \<Rightarrow> uuid \<Rightarrow> nat \<Rightarrow> controller \<Rightarrow> controller" where
  "handleModifyOrder receiptMsgId oid now s =
     (let s1 = s\<lparr>orderCompleteRef := False, ttsEndedWhileRespondingRef := False,
                 modifyingOrderIdRef := Some oid, modifyingReceiptMsgIdRef := Some receiptMsgId\<rparr>;
          modMsg = plain_message (Cashier_id now) Cashier
                     (js ''Sure, what would you like to change?'') now
      in speakMessage (ChatMessage.id modMsg) (content modMsg)
           (s1\<lparr>messages := messages s1 @ [modMsg]\<rparr>))"

definition handleSelectItem :: "jsstring \<Rightarrow> nat \<Rightarrow> controller \<Rightarrow> controller" where
  "handleSelectItem item now s = handleSend (js ''I'd like a '' @ item) now s"

definition onFinalSpeech :: "jsstring \<Rightarrow> nat \<Rightarrow> controller \<Rightarrow> controller" where
  "onFinalSpeech text now s =
     (if \<not> isResponding s \<and> trim text \<noteq> [] then handleSend text now s else s)"

text \<open>\<open>handleStartListening\<close>, without the 300 ms glow of the frame.\<close>

definition handleStartListening :: "controller \<Rightarrow> controller" where
  "handleStartListening s =
     start_listening ((stop_speech (clearAutoListenTimer s))\<lparr>speakingMessageId := None\<rparr>)"

definition toggle_mute :: "controller \<Rightarrow> controller" where
  "toggle_mute s =
     (let s1 = (if \<not> isMutedRef s then stop_speech s else s)
      in s1\<lparr>isMutedRef := \<not> isMutedRef s1\<rparr>)"

text \<open>The handlers of \<open>ChatInput\<close>, which is disabled while \<open>isResponding\<close>.\<close>

definition chat_input_send :: "jsstring \<Rightarrow> nat \<Rightarrow> controller \<Rightarrow> controller" where
  "chat_input_send v now s =
     (let trimmed = trim v
      in if trimmed = [] \<or> isResponding s then s else handleSend trimmed now s)"

definition handleMicPress :: "controller \<Rightarrow> controller" where
  "handleMicPress s =
     (if isResponding s then s
      else if isListening (mic s) then stop_listening s
      else handleStartListening s)"

text \<open>The buttons a message offers: replay on a bubble, \<open>Modify order\<close> and \<open>New order\<close>
  on a receipt card.\<close>

definition find_message :: "controller \<Rightarrow> msg_id \<Rightarrow> ChatMessage option" where
  "find_message s m = find (\<lambda>x. ChatMessage.id x = m) (messages s)"

definition replay :: "msg_id \<Rightarrow> controller \<Rightarrow> controller" where
  "replay m s =
     (case find_message s m of
        None \<Rightarrow> s
      | Some x \<Rightarrow>
          if voiceModeRef s \<and> \<not> isMutedRef s
             \<and> (if receipt x \<noteq> None then content x \<noteq> [] else role x = Cashier)
          then speakMessage m (content x) s
          else s)"

definition modify_tap :: "msg_id \<Rightarrow> nat \<Rightarrow> controller \<Rightarrow> controller" where
  "modify_tap m now s =
     (case find_message s m of
        None \<Rightarrow> s
      | Some x \<Rightarrow>
          (case receipt x of
             None \<Rightarrow> s
           | Some r \<Rightarrow> (case orderId x of None \<Rightarrow> s | Some oid \<Rightarrow> handleModifyOrder m oid now s)))"

definition new_order_tap :: "nat \<Rightarrow> controller \<Rightarrow> controller" where
  "new_order_tap now s =
     (if list_ex (\<lambda>x. receipt x \<noteq> None) (messages s) then handleNewOrder now s else s)"

text \<open>The callbacks of the platform: the recognizer's handlers and the silence guard.\<close>

definition recognition_ended :: "nat \<Rightarrow> controller \<Rightarrow> controller" where
  "recognition_ended now s =
     (let (r, final) = recognition_onend (mic s);
          s1 = s\<lparr>mic := r\<rparr>
      in case final of None \<Rightarrow> s1 | Some text \<Rightarrow> onFinalSpeech text now s1)"

definition silence_timeout :: "nat \<Rightarrow> controller \<Rightarrow> controller" where
  "silence_timeout t s =
     (if t \<in> set (timers s) then stop_listening (s\<lparr>timers := removeAll t (timers s)\<rparr>) else s)"

subsection \<open>Events\<close>

datatype event =
    Begin                                 \<comment> \<open>splash: \<open>Start your order\<close>\<close>
  | BeginText                             \<comment> \<open>splash: \<open>or type instead\<close>\<close>
  | Send jsstring nat                     \<comment> \<open>text submitted in \<open>ChatInput\<close>\<close>
  | SelectItem jsstring nat               \<comment> \<open>an item tapped in the menu drawer\<close>
  | MicPress
  | ToggleMute
  | SetVoiceMode bool
  | Replay msg_id
  | NewOrderTap nat
  | ModifyOrderTap msg_id nat
  | Chunk nat jsstring nat                \<comment> \<open>the reader of invocation \<open>k\<close> yields a chunk\<close>
  | StreamEnd nat "statement \<Rightarrow> bool" nat   \<comment> \<open>the reader of invocation \<open>k\<close> is done\<close>
  | StreamError nat nat                   \<comment> \<open>the fetch or a read of invocation \<open>k\<close> throws\<close>
  | Speech tts_event
  | RecognitionStarted
  | RecognitionResult jsstring jsstring
  | RecognitionEnded nat
  | RecognitionFailed
  | SilenceTimeout nat                    \<comment> \<open>the silence-guard timeout fires\<close>

fun step ::
  "(jsstring \<Rightarrow> json option) \<Rightarrow> (json \<Rightarrow> OrderReceipt) \<Rightarrow> controller \<Rightarrow> event \<Rightarrow> controller"
where
  "step P C s Begin = handleBegin s"
| "step P C s BeginText = handleBeginText s"
| "step P C s (Send v now) = chat_input_send v now s"
| "step P C s (SelectItem item now) = handleSelectItem item now s"
| "step P C s MicPress = handleMicPress s"
| "step P C s ToggleMute = toggle_mute s"
| "step P C s (SetVoiceMode b) = s\<lparr>voiceModeRef := b\<rparr>"
| "step P C s (Replay m) = replay m s"
| "step P C s (NewOrderTap now) = new_order_tap now s"
| "step P C s (ModifyOrderTap m now) = modify_tap m now s"
| "step P C s (Chunk k chunk now) = stream_chunk k chunk now s"
| "step P C s (StreamEnd k fails now) = stream_end P C k fails now s"
| "step P C s (StreamError k now) = stream_error k now s"
| "step P C s (Speech ev) = speech_event ev s"
| "step P C s RecognitionStarted = s\<lparr>mic := recognition_onstart (mic s)\<rparr>"
| "step P C s (RecognitionResult finalText interimText) =
     s\<lparr>mic := recognition_onresult finalText interimText (mic s)\<rparr>"
| "step P C s (RecognitionEnded now) = recognition_ended now s"
| "step P C s RecognitionFailed = s\<lparr>mic := recognition_onerror (mic s)\<rparr>"
| "step P C s (SilenceTimeout t) = silence_timeout t s"

definition run ::
  "(jsstring \<Rightarrow> json option) \<Rightarrow> (json \<Rightarrow> OrderReceipt) \<Rightarrow> controller \<Rightarrow> event list \<Rightarrow> controller"
where
  "run P C s evs = foldl (step P C) s evs"

text \<open>The events by which the user starts a new order or asks to modify the order.\<close>

fun reopens :: "event \<Rightarrow> bool" where
  "reopens (NewOrderTap now) = True"
| "reopens (ModifyOrderTap m now) = True"
| "reopens e = False"

subsection \<open>Observations\<close>

text \<open>How often \<open>activateMic\<close> has been called.\<close>

definition activations :: "controller \<Rightarrow> nat" where
  "activations s = count_list (trace s) ActivateMic"

text \<open>At most one silence-guard timer is armed, and it is the one the ref names.\<close>

definition one_timer :: "controller \<Rightarrow> bool" where
  "one_timer s = (timers s = [] \<or> (\<exists>t. timers s = [t] \<and> autoListenTimerRef s = Some t))"

text \<open>The sum of the item prices of a receipt.\<close>

definition items_sum :: "OrderReceipt \<Rightarrow> number" where
  "items_sum r = sum_list (map ReceiptItem.item_price (items r))"

text \<open>
  What a receipt item says, and what a stored row says: the eight copied properties and
  the add-ons, each as name, quantity and price per unit. A stored row always has its
  add-ons; the two views are equal when it has those of the item.
\<close>

type_synonym item_view =
  "jsstring \<times> jsstring \<times> jsstring \<times> jsstring option \<times> jsstring \<times> jsstring
     \<times> (jsstring \<times> number \<times> number) list option \<times> number \<times> jsstring option"

definition item_fields :: "ReceiptItem \<Rightarrow> item_view" where
  "item_fields i =
     (ReceiptItem.item_name i, ReceiptItem.size i, ReceiptItem.temp i, ReceiptItem.milk i,
      ReceiptItem.sweetness i, ReceiptItem.ice_level i,
      map_option (map (\<lambda>a. (ReceiptAddOn.name a, ReceiptAddOn.qty a, price a))) (ReceiptItem.add_ons i),
      ReceiptItem.item_price i, ReceiptItem.special_instructions i)"

definition row_fields :: "'a NewOrderItem_scheme \<Rightarrow> item_view" where
  "row_fields r =
     (NewOrderItem.item_name r, NewOrderItem.size r, NewOrderItem.temp r, NewOrderItem.milk r,
      NewOrderItem.sweetness r, NewOrderItem.ice_level r,
      Some (map (\<lambda>a. (AddOnLineItem.name a, AddOnLineItem.qty a, unit_price a)) (NewOrderItem.add_ons r)),
      NewOrderItem.item_price r, NewOrderItem.special_instructions r)"

text \<open>Whether the text contains the opening fence \<open>```json\<close> anywhere.\<close>

fun opens_fence :: "jsstring \<Rightarrow> bool" where
  "opens_fence [] = False"
| "opens_fence (c # cs) = (strip_lit (js ''```json'') (c # cs) \<noteq> None \<or> opens_fence cs)"

section \<open>Closed examples\<close>

text \<open>The adapter after \<open>speak("Hi")\<close>: one session, waiting for the synthesis request.\<close>

definition speaking_hi :: tts where
  "speaking_hi = fst (speak (js ''Hi'') tts_init)"

text \<open>Two receipts as the model writes them, what \<open>JSON.parse\<close> makes of them, and their
  typed reading. In the first the stated total is the sum of the item prices; in the
  second it is not.\<close>

definition complete_json :: jsstring where
  \<open>complete_json = js ''{"type":"order_complete","items":[{"item_name":"Latte","add_ons":[],"item_price":4.5},{"item_name":"Muffin","add_ons":[],"item_price":2}],"total_price":6.5}''\<close>

definition update_json :: jsstring where
  \<open>update_json = js ''{"type":"order_update","items":[{"item_name":"Latte","add_ons":[],"item_price":4}],"total_price":5}''\<close>

definition json_item :: "string \<Rightarrow> number \<Rightarrow> json" where
  "json_item n p =
     JObj [(js ''item_name'', JStr (js n)), (js ''add_ons'', JArr []), (js ''item_price'', JNum p)]"

definition complete_value :: json where
  "complete_value =
     JObj [(js ''type'', JStr (js ''order_complete'')),
           (js ''items'', JArr [json_item ''Latte'' (9 / 2), json_item ''Muffin'' 2]),
           (js ''total_price'', JNum (13 / 2))]"

definition update_value :: json where
  "update_value =
     JObj [(js ''type'', JStr (js ''order_update'')),
           (js ''items'', JArr [json_item ''Latte'' 4]),
           (js ''total_price'', JNum 5)]"

definition demo_parse :: "jsstring \<Rightarrow> json option" where
  "demo_parse g =
     (if g = complete_json then Some complete_value
      else if g = update_json then Some update_value
      else None)"

definition receipt_item :: "string \<Rightarrow> number \<Rightarrow> ReceiptItem" where
  "receipt_item n p =
     \<lparr>ReceiptItem.item_name = js n, ReceiptItem.size = js ''large'', ReceiptItem.temp = js ''hot'',
      ReceiptItem.milk = None, ReceiptItem.sweetness = js ''regular'',
      ReceiptItem.ice_level = js ''none'', ReceiptItem.add_ons = Some [],
      ReceiptItem.item_price = p, ReceiptItem.special_instructions = None\<rparr>"

definition complete_receipt :: OrderReceipt where
  "complete_receipt =
     \<lparr>rtype = order_complete, OrderReceipt.customer_name = None,
      items = [receipt_item ''Latte'' (9 / 2), receipt_item ''Muffin'' 2],
      OrderReceipt.total_price = 13 / 2\<rparr>"

definition update_receipt :: OrderReceipt where
  "update_receipt =
     \<lparr>rtype = order_update, OrderReceipt.customer_name = None,
      items = [receipt_item ''Latte'' 4],
      OrderReceipt.total_price = 5\<rparr>"

definition demo_cast :: "json \<Rightarrow> OrderReceipt" where
  "demo_cast v = (if v = update_value then update_receipt else complete_receipt)"

text \<open>A revised item list: a latte with one add-on, and a cookie.\<close>

definition vanilla :: ReceiptAddOn where
  "vanilla = \<lparr>ReceiptAddOn.name = js ''Vanilla'', ReceiptAddOn.qty = 1, price = 1 / 2\<rparr>"

definition revised_items :: "ReceiptItem list" where
  "revised_items =
     [(receipt_item ''Latte'' 4)\<lparr>ReceiptItem.add_ons := Some [vanilla]\<rparr>, receipt_item ''Cookie'' 3]"

definition no_faults :: "statement \<Rightarrow> bool" where
  "no_faults st = False"

text \<open>Pieces of streamed responses: forty code units, then more than eighty.\<close>

definition forty :: jsstring where
  "forty = js ''Great, one large oat latte and a muffin.''"

definition plain_tail :: jsstring where
  "plain_tail = js '' That will be six dollars and fifty cents. Anything else for you today?''"

definition closed_tail :: jsstring where
  "closed_tail = js '' Your receipt: ```json '' @ complete_json @ js '' ``` Enjoy!''"

definition unclosed_tail :: jsstring where
  \<open>unclosed_tail = js '' Your receipt: ```json {"type":"order_complete","items":[{"item_name":"Latte","item_price":''\<close>

definition receipt_only :: jsstring where
  "receipt_only = js ''```json '' @ complete_json @ js '' ```''"

definition update_reply :: jsstring where
  "update_reply = js ''Updated! ```json '' @ update_json @ js '' ```''"

text \<open>The order as the store holds it after the first receipt.\<close>

definition placed_order :: Order where
  "placed_order =
     \<lparr>order_number = 1, customer_name = None, status = new, total_price = 13 / 2, Order.id = 0\<rparr>"

definition placed_item :: "uuid \<Rightarrow> string \<Rightarrow> number \<Rightarrow> OrderItem" where
  "placed_item i n p =
     \<lparr>order_id = 0, item_name = js n, size = js ''large'', temp = js ''hot'', milk = None,
      sweetness = js ''regular'', ice_level = js ''none'', add_ons = [], item_price = p,
      special_instructions = None, OrderItem.id = i\<rparr>"

definition placed_store :: database where
  "placed_store =
     \<lparr>orders = [placed_order],
      order_items = [placed_item 1 ''Latte'' (9 / 2), placed_item 2 ''Muffin'' 2],
      next_uuid = 3\<rparr>"

text \<open>
  States of the controller: while the reply that carries the first receipt is streaming
  in; after that order has been placed, with speech still playing, a later reply still
  streaming and the deferred flag set; while the reply to a requested modification is
  streaming in; and after the greeting has played to its end and the microphone has been
  opened under the silence guard.
\<close>

definition taking_order :: controller where
  "taking_order =
     (initial True 0)
       \<lparr>isResponding := True, isRespondingRef := True,
        turns := [\<lparr>fullContent = forty @ closed_tail, streamingId = Some (Cashier_id 2),
                   ttsStarted = True, pending = True\<rparr>]\<rparr>"

definition order_placed :: controller where
  "order_placed =
     (initial True 0)
       \<lparr>orderCompleteRef := True, ttsEndedWhileRespondingRef := True,
        isResponding := True, isRespondingRef := True,
        speech := speaking_hi, store := placed_store,
        turns := [\<lparr>fullContent = forty @ closed_tail, streamingId = Some (Cashier_id 2),
                   ttsStarted = True, pending = False\<rparr>,
                  \<lparr>fullContent = js ''Anything else?'', streamingId = Some (Cashier_id 5),
                   ttsStarted = False, pending = True\<rparr>]\<rparr>"

definition modifying_order :: controller where
  "modifying_order =
     (initial True 0)
       \<lparr>isResponding := True, isRespondingRef := True,
        modifyingOrderIdRef := Some 0, modifyingReceiptMsgIdRef := Some (Cashier_id 2),
        store := placed_store,
        turns := [\<lparr>fullContent = forty @ closed_tail, streamingId = Some (Cashier_id 2),
                   ttsStarted = True, pending = False\<rparr>,
                  \<lparr>fullContent = update_reply, streamingId = Some (Cashier_id 6),
                   ttsStarted = False, pending = True\<rparr>]\<rparr>"

text \<open>
  The controller after the microphone button has been pressed while the greeting is
  playing, and after it has been pressed while the trailing timeout of the greeting is
  pending.
\<close>

definition stopped_playback :: controller where
  "stopped_playback =
     run demo_parse demo_cast (initial True 0)
       [Begin, Speech (FetchOk 0), Speech (BlobReady 0), MicPress]"

definition stopped_tail :: controller where
  "stopped_tail =
     run demo_parse demo_cast (initial True 0)
       [Begin, Speech (FetchOk 0), Speech (BlobReady 0), Speech (AudioEnded 0), MicPress]"

text \<open>The controller after text mode has been chosen and a latte tapped in the menu: the
  first turn is in flight.\<close>

definition latte_turn :: controller where
  "latte_turn = run demo_parse demo_cast (initial True 0) [BeginText, SelectItem (js ''Latte'') 1]"


text \<open>
  The controller after the greeting could not be synthesized, was replayed with the same
  result while the recognizer of the first reactivation was open, and after that
  recognizer ended and the one of the second reactivation started.
\<close>

definition clobbered_listening :: controller where
  "clobbered_listening =
     run demo_parse demo_cast (initial True 0)
       [Begin, Speech (FetchNotOk 0), Replay Greeting_id, Speech (FetchNotOk 1),
        RecognitionEnded 1, RecognitionStarted]"

section \<open>Properties of the receipt extractor\<close>

subsection \<open>Trimming\<close>

lemma dropWhile_snoc_keep: "\<not> P x \<Longrightarrow> dropWhile P (xs @ [x]) = dropWhile P xs @ [x]"
  by (induction xs) auto

lemma dropWhile_fixed: "xs = [] \<or> \<not> P (hd xs) \<Longrightarrow> dropWhile P xs = xs"
  by (cases xs) auto

lemma trim_idem: "trim (trim s) = trim s"
proof -
  define t where "t = dropWhile is_ws s"
  define u where "u = rev (dropWhile is_ws (rev t))"
  have head: "u = [] \<or> \<not> is_ws (hd u)"
  proof (cases t)
    case Nil
    then show ?thesis by (simp add: u_def)
  next
    case (Cons x t')
    then have "\<not> is_ws x"
      unfolding t_def by (metis hd_dropWhile list.sel(1) list.distinct(1))
    then show ?thesis
      by (simp add: u_def Cons dropWhile_snoc_keep)
  qed
  have "dropWhile is_ws u = u"
    using head by (rule dropWhile_fixed)
  moreover have "dropWhile is_ws (rev u) = rev u"
    by (simp add: u_def)
  ultimately show ?thesis
    by (simp add: trim_def t_def u_def)
qed

lemma length_trim: "length (trim s) \<le> length s"
proof -
  have "length (dropWhile is_ws (rev (dropWhile is_ws s))) \<le> length (rev (dropWhile is_ws s))"
    by (rule length_dropWhile_le)
  also have "\<dots> \<le> length s"
    by (simp add: length_dropWhile_le)
  finally show ?thesis by (simp add: trim_def)
qed

subsection \<open>A match is never empty\<close>

lemma strip_lit_length: "strip_lit p s = Some r \<Longrightarrow> length s = length p + length r"
  by (induction p s rule: strip_lit.induct) (auto split: if_splits)

lemma close_here_length: "close_here s = Some r \<Longrightarrow> length r < length s"
proof -
  assume "close_here s = Some r"
  then have "length (dropWhile is_ws s) = length (js ''```'') + length r"
    unfolding close_here_def by (rule strip_lit_length)
  moreover have "length (dropWhile is_ws s) \<le> length s"
    by (rule length_dropWhile_le)
  ultimately show ?thesis by (simp add: js_def)
qed

lemma lazy_body_length: "lazy_body s = Some (b, r) \<Longrightarrow> length r < length s"
proof (induction s arbitrary: b r)
  case Nil
  then show ?case by simp
next
  case (Cons c cs)
  show ?case
  proof (cases "if c = of_char CHR ''}'' then close_here cs else None")
    case None
    with Cons.prems obtain b' where "lazy_body cs = Some (b', r)"
      by (auto split: if_splits)
    then have "length r < length cs" by (rule Cons.IH)
    then show ?thesis by simp
  next
    case (Some rest)
    with Cons.prems have "rest = r" by simp
    with Some have "close_here cs = Some r" by (simp split: if_splits)
    then have "length r < length cs" by (rule close_here_length)
    then show ?thesis by simp
  qed
qed

lemma match_here_length: "match_here s = Some (g, r) \<Longrightarrow> length r < length s"
proof -
  assume m: "match_here s = Some (g, r)"
  then obtain r0 where r0: "strip_lit (js ''```json'') s = Some r0"
    by (auto simp: match_here_def split: option.splits)
  with m obtain c cs b where d: "dropWhile is_ws r0 = c # cs" and l: "lazy_body cs = Some (b, r)"
    by (auto simp: match_here_def split: option.splits list.splits if_splits)
  have "length r < length cs" using l by (rule lazy_body_length)
  also have "\<dots> < length (dropWhile is_ws r0)" by (simp add: d)
  also have "\<dots> \<le> length r0" by (rule length_dropWhile_le)
  also have "\<dots> \<le> length s" using strip_lit_length [OF r0] by simp
  finally show ?thesis .
qed

lemma regex_exec_length:
  "regex_exec s = Some (pre, g, r) \<Longrightarrow> length (pre @ r) < length s"
proof (induction s arbitrary: pre g r)
  case Nil
  then show ?case by simp
next
  case (Cons c cs)
  show ?case
  proof (cases "match_here (c # cs)")
    case None
    with Cons.prems obtain pre' where p: "pre = c # pre'" and "regex_exec cs = Some (pre', g, r)"
      by auto
    then have "length (pre' @ r) < length cs" using Cons.IH by blast
    with p show ?thesis by simp
  next
    case (Some a)
    with Cons.prems have "pre = []" and "match_here (c # cs) = Some (g, r)"
      by (auto split: prod.splits)
    then show ?thesis using match_here_length by fastforce
  qed
qed

lemma strip_shrinks:
  assumes "regex_exec s \<noteq> None"
  shows "length (stripReceiptBlock s) < length s"
proof -
  from assms obtain pre g r where e: "regex_exec s = Some (pre, g, r)" by auto
  have "length (trim (pre @ r)) \<le> length (pre @ r)" by (rule length_trim)
  also have "\<dots> < length s" using e by (rule regex_exec_length)
  finally show ?thesis by (simp add: stripReceiptBlock_def e)
qed

lemma strip_fixed:
  assumes "regex_exec (stripReceiptBlock t) = None"
  shows "stripReceiptBlock (stripReceiptBlock t) = stripReceiptBlock t"
proof -
  have "stripReceiptBlock (stripReceiptBlock t) = trim (stripReceiptBlock t)"
    using assms by (simp add: stripReceiptBlock_def)
  also have "\<dots> = stripReceiptBlock t"
    by (simp add: stripReceiptBlock_def trim_idem)
  finally show ?thesis .
qed

lemmas regex_eval = js_def is_ws_def trim_def close_here_def match_here_def

subsection \<open>Claim C6\<close>

text \<open>
  C6, as stated: \<open>stripReceiptBlock\<close> is idempotent for every input text. It is not: the
  expression has no \<open>g\<close> flag, so one call removes the first block only, and a text with
  two blocks loses one block per call.
\<close>

theorem stripReceiptBlock_twice_counterexample:
  "stripReceiptBlock (stripReceiptBlock (js ''Done. ```json{}``` ```json{}```''))
     \<noteq> stripReceiptBlock (js ''Done. ```json{}``` ```json{}```'')"
  by (simp add: stripReceiptBlock_def regex_eval)

text \<open>
  C6, amended: a second application of \<open>stripReceiptBlock\<close> returns the result of the first
  exactly when the once-stripped text contains no further receipt block; in that case the
  receipt parser, run on the stripped text, finds no receipt.
\<close>

theorem stripReceiptBlock_twice_iff:
  "(stripReceiptBlock (stripReceiptBlock t) = stripReceiptBlock t
      \<longleftrightarrow> regex_exec (stripReceiptBlock t) = None)
   \<and> (regex_exec (stripReceiptBlock t) = None
      \<longrightarrow> parseReceipt JSON_parse as_OrderReceipt (stripReceiptBlock t) = None)"
proof -
  have no_block: "regex_exec (stripReceiptBlock t) = None"
    if eq: "stripReceiptBlock (stripReceiptBlock t) = stripReceiptBlock t"
  proof (rule ccontr)
    assume "regex_exec (stripReceiptBlock t) \<noteq> None"
    then have "length (stripReceiptBlock (stripReceiptBlock t)) < length (stripReceiptBlock t)"
      by (rule strip_shrinks)
    with eq show False by simp
  qed
  have parse: "parseReceipt JSON_parse as_OrderReceipt (stripReceiptBlock t) = None"
    if "regex_exec (stripReceiptBlock t) = None"
    using that by (simp add: parseReceipt_def)
  from no_block strip_fixed [of t] parse show ?thesis by blast
qed

theorem stripReceiptBlock_twice_iff_witness:
  "regex_exec (stripReceiptBlock (js ''Done. ```json{}``` Bye'')) = None
   \<and> stripReceiptBlock (stripReceiptBlock (js ''Done. ```json{}``` Bye''))
       = stripReceiptBlock (js ''Done. ```json{}``` Bye'')
   \<and> parseReceipt (\<lambda>g. None) (\<lambda>d. no_receipt) (stripReceiptBlock (js ''Done. ```json{}``` Bye''))
       = None"
proof -
  have h: "regex_exec (stripReceiptBlock (js ''Done. ```json{}``` Bye'')) = None"
    by (simp add: stripReceiptBlock_def regex_eval)
  show ?thesis
    using h stripReceiptBlock_twice_iff [of "js ''Done. ```json{}``` Bye''" "\<lambda>g. None" "\<lambda>d. no_receipt"]
    by blast
qed

subsection \<open>Claim C7\<close>

text \<open>
  C7: \<open>parseReceipt\<close> returns \<open>null\<close> when the text holds no fenced block, when the
  block's content is not valid JSON (\<open>JSON.parse\<close> throws), and when the parsed value's
  \<open>type\<close> is not one of \<open>order_complete\<close> and \<open>order_update\<close>; every exception raised
  inside it is caught and becomes \<open>null\<close>, so it never throws.
\<close>

theorem parseReceipt_null_cases:
  "(regex_exec text = None \<longrightarrow> parseReceipt JSON_parse as_OrderReceipt text = None)
   \<and> (regex_exec text = Some (pre, g, rest) \<and> JSON_parse g = None
        \<longrightarrow> parseReceipt JSON_parse as_OrderReceipt text = None)
   \<and> (regex_exec text = Some (pre, g, rest) \<and> JSON_parse g = Some data
        \<and> get_prop data (js ''type'') \<noteq> Inr (Some (JStr (js ''order_complete'')))
        \<and> get_prop data (js ''type'') \<noteq> Inr (Some (JStr (js ''order_update'')))
        \<longrightarrow> parseReceipt JSON_parse as_OrderReceipt text = None)
   \<and> (regex_exec text = Some (pre, g, rest) \<and> parseReceipt_try JSON_parse as_OrderReceipt g = Inl e
        \<longrightarrow> parseReceipt JSON_parse as_OrderReceipt text = None)"
  by (auto simp: parseReceipt_def parseReceipt_try_def recognized_type_def
           split: option.splits sum.splits)

theorem parseReceipt_null_cases_witness:
  "(regex_exec (js ''One latte, coming up!'') = None
      \<and> parseReceipt (\<lambda>g. None) (\<lambda>d. no_receipt) (js ''One latte, coming up!'') = None)
   \<and> (regex_exec (js ''Ok ```json {not json} ```'') = Some (js ''Ok '', js ''{not json}'', [])
      \<and> parseReceipt (\<lambda>g. None) (\<lambda>d. no_receipt) (js ''Ok ```json {not json} ```'') = None)
   \<and> (regex_exec (js ''Ok ```json {} ```'') = Some (js ''Ok '', js ''{}'', [])
      \<and> get_prop (JObj [(js ''type'', JStr (js ''refund''))]) (js ''type'')
           \<noteq> Inr (Some (JStr (js ''order_complete'')))
      \<and> get_prop (JObj [(js ''type'', JStr (js ''refund''))]) (js ''type'')
           \<noteq> Inr (Some (JStr (js ''order_update'')))
      \<and> parseReceipt (\<lambda>g. Some (JObj [(js ''type'', JStr (js ''refund''))])) (\<lambda>d. no_receipt)
           (js ''Ok ```json {} ```'') = None)
   \<and> (parseReceipt_try (\<lambda>g. Some JNull) (\<lambda>d. no_receipt) (js ''{}'') = Inl TypeError
      \<and> parseReceipt (\<lambda>g. Some JNull) (\<lambda>d. no_receipt) (js ''Ok ```json {} ```'') = None)"
proof -
  have a: "regex_exec (js ''One latte, coming up!'') = None"
    by (simp add: regex_eval)
  have b: "regex_exec (js ''Ok ```json {not json} ```'') = Some (js ''Ok '', js ''{not json}'', [])"
    by (simp add: regex_eval)
  have c: "regex_exec (js ''Ok ```json {} ```'') = Some (js ''Ok '', js ''{}'', [])"
    by (simp add: regex_eval)
  have d: "get_prop (JObj [(js ''type'', JStr (js ''refund''))]) (js ''type'')
             \<noteq> Inr (Some (JStr (js ''order_complete'')))
           \<and> get_prop (JObj [(js ''type'', JStr (js ''refund''))]) (js ''type'')
             \<noteq> Inr (Some (JStr (js ''order_update'')))"
    by (simp add: js_def)
  have e: "parseReceipt_try (\<lambda>g. Some JNull) (\<lambda>d. no_receipt) (js ''{}'') = Inl TypeError"
    by (simp add: parseReceipt_try_def)
  show ?thesis
    using a b c d e
      parseReceipt_null_cases [of "js ''One latte, coming up!''" "\<lambda>g. None" "\<lambda>d. no_receipt"]
      parseReceipt_null_cases [of "js ''Ok ```json {not json} ```''" "\<lambda>g. None" "\<lambda>d. no_receipt"
        "js ''Ok ''" "js ''{not json}''" "[]"]
      parseReceipt_null_cases [of "js ''Ok ```json {} ```''"
        "\<lambda>g. Some (JObj [(js ''type'', JStr (js ''refund''))])" "\<lambda>d. no_receipt"
        "js ''Ok ''" "js ''{}''" "[]" "JObj [(js ''type'', JStr (js ''refund''))]"]
      parseReceipt_null_cases [of "js ''Ok ```json {} ```''" "\<lambda>g. Some JNull" "\<lambda>d. no_receipt"
        "js ''Ok ''" "js ''{}''" "[]" _ TypeError]
    by blast
qed

subsection \<open>Evaluation of closed runs\<close>

text \<open>The greeting is not empty, so \<open>speak\<close> does not return at once on it; and the
  definitions a run of the controller on concrete events unfolds to.\<close>

lemma trim_nil: "trim [] = []"
  by (simp add: trim_def)

lemma greeting_nonempty: "trim GREETING_TEXT \<noteq> []"
  by (simp add: GREETING_TEXT_def regex_eval)

lemmas run_defs = run_def handleBegin_def speakMessage_def speak_def stop_def tts_init_def
  initial_def mic_init_def speech_event_def in_phase_def set_phase_def is_aborted_def
  handleMicPress_def handleStartListening_def stop_speech_def emit_def clearAutoListenTimer_def
  start_listening_def stop_listening_def startListening_def stopListening_def clear_speaking_def
  completed_speech_def onTtsEnd_def activateMic_def Let_def replay_def find_message_def
  recognition_ended_def recognition_onend_def recognition_onstart_def silence_timeout_def

section \<open>Properties of the persistence gateway\<close>

subsection \<open>Claim C5\<close>

lemma row_fields_assign_ids: "map row_fields (assign_ids n rows) = map row_fields rows"
  by (induction rows arbitrary: n) (simp_all add: row_fields_def NewOrderItem.defs OrderItem.defs)

lemma order_id_assign_ids: "r \<in> set (assign_ids n rows) \<Longrightarrow> order_id r \<in> order_id ` set rows"
  by (induction rows arbitrary: n) (auto simp: NewOrderItem.defs OrderItem.defs)

lemma row_fields_item_row:
  "ReceiptItem.add_ons item = Some addOns \<Longrightarrow> row_fields (item_row oid item addOns) = item_fields item"
  by (simp add: row_fields_def item_fields_def item_row_def addon_row_def comp_def)

lemma toItemRows_fields:
  "toItemRows oid its = Inr rows \<Longrightarrow> map row_fields rows = map item_fields its"
  by (induction its arbitrary: rows)
     (auto simp: row_fields_item_row split: option.splits sum.splits)

lemma order_id_toItemRows:
  "toItemRows oid its = Inr rows \<Longrightarrow> r \<in> set rows \<Longrightarrow> order_id r = oid"
  by (induction its arbitrary: rows)
     (auto simp: item_row_def split: option.splits sum.splits)

lemma toItemRows_total:
  "list_all (\<lambda>item. ReceiptItem.add_ons item \<noteq> None) its \<Longrightarrow> \<exists>rows. toItemRows oid its = Inr rows"
  by (induction its) auto

lemma toItemRows_throws:
  "\<not> list_all (\<lambda>item. ReceiptItem.add_ons item \<noteq> None) its \<Longrightarrow> toItemRows oid its = Inl TypeError"
  by (induction its) (auto split: option.splits sum.splits)

lemma new_rows_order_id:
  "toItemRows oid its = Inr rows \<Longrightarrow> r \<in> set (assign_ids n rows) \<Longrightarrow> order_id r = oid"
  using order_id_assign_ids order_id_toItemRows by blast

lemma filter_other:
  "other \<noteq> k \<Longrightarrow> filter (\<lambda>r. f r = other) (filter (\<lambda>r. f r \<noteq> k) xs) = filter (\<lambda>r. f r = other) xs"
  by (induction xs) auto

lemma find_update_total:
  "find (\<lambda>r. Order.id r = k) (map (\<lambda>r. if Order.id r = oid then r\<lparr>total_price := t\<rparr> else r) rs)
     = (if k = oid then map_option (\<lambda>r. r\<lparr>total_price := t\<rparr>) (find (\<lambda>r. Order.id r = k) rs)
        else find (\<lambda>r. Order.id r = k) rs)"
  by (induction rs) auto

lemma updateOrder_ok_db:
  assumes "updateOrder fails oid its newTotal d = (d', Inr ())"
  shows "\<exists>rows. toItemRows oid its = Inr rows
           \<and> d' = snd (insert_items rows (delete_items oid (update_total oid newTotal d)))"
  using assms by (auto simp: updateOrder_def Let_def split: if_splits sum.splits)

lemma updateOrder_succeeds:
  assumes "\<not> fails UpdateTotal" "\<not> fails DeleteItems" "\<not> fails InsertItems"
    and "list_all (\<lambda>item. ReceiptItem.add_ons item \<noteq> None) its"
  shows "snd (updateOrder fails oid its newTotal d) = Inr ()"
proof -
  from toItemRows_total [OF assms(4)] obtain rows where "toItemRows oid its = Inr rows" by blast
  with assms(1-3) show ?thesis by (simp add: updateOrder_def Let_def)
qed

text \<open>
  The \<open>TypeError\<close> of \<open>toItemRows\<close> leaves \<open>updateOrder\<close> between its second and its third
  statement: the total is updated, the old items are deleted, and no item is inserted.
\<close>

lemma updateOrder_throws_after_delete:
  assumes "\<not> fails UpdateTotal" "\<not> fails DeleteItems"
    and "\<not> list_all (\<lambda>item. ReceiptItem.add_ons item \<noteq> None) its"
  shows "updateOrder fails oid its newTotal d
           = (delete_items oid (update_total oid newTotal d), Inl (Uncaught TypeError))"
    and "items_of (fst (updateOrder fails oid its newTotal d)) oid = []"
  using assms toItemRows_throws [OF assms(3), of oid]
  by (simp_all add: updateOrder_def Let_def items_of_def delete_items_def update_total_def)

text \<open>
  C5: for an existing order, a successful \<open>updateOrder\<close> replaces the total and every line
  item of that order and leaves its \<open>id\<close> and \<open>order_number\<close> as they were. Reading the
  items of the order back gives one row for each item of the revised list, in the order of
  the list, and each row says what its item says: name, size, temperature, milk,
  sweetness, ice level, price, special instructions, and the add-ons with their names,
  quantities and prices. So the rows read back are the new items and not the union of old
  and new. Nothing else in the store changes. The call succeeds whenever none of its three
  statements fails and every item of the list carries its array of add-ons.
\<close>

theorem updateOrder_replaces:
  "(\<not> fails UpdateTotal \<and> \<not> fails DeleteItems \<and> \<not> fails InsertItems
      \<and> list_all (\<lambda>item. ReceiptItem.add_ons item \<noteq> None) its
      \<longrightarrow> snd (updateOrder fails oid its newTotal d) = Inr ())
   \<and> (find_order d oid = Some ord \<and> updateOrder fails oid its newTotal d = (d', Inr ())
      \<longrightarrow> find_order d' oid = Some (ord\<lparr>total_price := newTotal\<rparr>)
        \<and> Order.id (ord\<lparr>total_price := newTotal\<rparr>) = Order.id ord
        \<and> order_number (ord\<lparr>total_price := newTotal\<rparr>) = order_number ord
        \<and> map Order.id (orders d') = map Order.id (orders d)
        \<and> map order_number (orders d') = map order_number (orders d)
        \<and> length (items_of d' oid) = length its
        \<and> map row_fields (items_of d' oid) = map item_fields its
        \<and> (\<forall>other. other \<noteq> oid
              \<longrightarrow> find_order d' other = find_order d other \<and> items_of d' other = items_of d other))"
proof -
  have ok: "snd (updateOrder fails oid its newTotal d) = Inr ()"
    if "\<not> fails UpdateTotal" "\<not> fails DeleteItems" "\<not> fails InsertItems"
       "list_all (\<lambda>item. ReceiptItem.add_ons item \<noteq> None) its"
    using that by (rule updateOrder_succeeds)
  have main: "find_order d' oid = Some (ord\<lparr>total_price := newTotal\<rparr>)
        \<and> map Order.id (orders d') = map Order.id (orders d)
        \<and> map order_number (orders d') = map order_number (orders d)
        \<and> length (items_of d' oid) = length its
        \<and> map row_fields (items_of d' oid) = map item_fields its
        \<and> (\<forall>other. other \<noteq> oid
              \<longrightarrow> find_order d' other = find_order d other \<and> items_of d' other = items_of d other)"
    if f: "find_order d oid = Some ord" and u: "updateOrder fails oid its newTotal d = (d', Inr ())"
  proof -
    from updateOrder_ok_db [OF u] obtain rows where
      rows: "toItemRows oid its = Inr rows"
      and d': "d' = snd (insert_items rows (delete_items oid (update_total oid newTotal d)))"
      by blast
    have os: "orders d' = map (\<lambda>r. if Order.id r = oid then r\<lparr>total_price := newTotal\<rparr> else r) (orders d)"
      by (simp add: d' insert_items_def delete_items_def update_total_def Let_def)
    have ia: "order_items d' = filter (\<lambda>r. order_id r \<noteq> oid) (order_items d) @ assign_ids (next_uuid d) rows"
      by (simp add: d' insert_items_def delete_items_def update_total_def Let_def)
    have new: "\<And>r. r \<in> set (assign_ids (next_uuid d) rows) \<Longrightarrow> order_id r = oid"
      using rows by (rule new_rows_order_id)
    have 1: "find_order d' oid = Some (ord\<lparr>total_price := newTotal\<rparr>)"
      using f by (simp add: find_order_def os find_update_total)
    have 2: "map Order.id (orders d') = map Order.id (orders d)"
      by (simp add: os comp_def if_distrib [of Order.id] cong: if_cong)
    have 3: "map order_number (orders d') = map order_number (orders d)"
      by (simp add: os comp_def if_distrib [of order_number] cong: if_cong)
    have keep: "filter (\<lambda>r. order_id r = oid) (assign_ids (next_uuid d) rows)
                 = assign_ids (next_uuid d) rows"
      using new by (simp add: filter_id_conv)
    have readback: "items_of d' oid = assign_ids (next_uuid d) rows"
      by (simp add: items_of_def ia keep)
    have 4: "map row_fields (items_of d' oid) = map item_fields its"
      by (simp add: readback row_fields_assign_ids toItemRows_fields [OF rows])
    from 4 have len: "length (items_of d' oid) = length its"
      by (rule map_eq_imp_length_eq)
    have 5: "find_order d' other = find_order d other \<and> items_of d' other = items_of d other"
      if "other \<noteq> oid" for other
    proof -
      have drop: "filter (\<lambda>r. order_id r = other) (assign_ids (next_uuid d) rows) = []"
        using new that by (auto simp: filter_empty_conv)
      have same: "filter (\<lambda>r. order_id r = other) (filter (\<lambda>r. order_id r \<noteq> oid) (order_items d))
                   = filter (\<lambda>r. order_id r = other) (order_items d)"
        using that by (rule filter_other)
      have "items_of d' other = items_of d other"
        by (simp add: items_of_def ia drop same del: filter_filter)
      moreover have "find_order d' other = find_order d other"
        using that by (simp add: find_order_def os find_update_total)
      ultimately show ?thesis by simp
    qed
    from 1 2 3 4 len 5 show ?thesis by blast
  qed
  from ok main show ?thesis by simp
qed

theorem updateOrder_replaces_witness:
  "\<not> no_faults UpdateTotal \<and> \<not> no_faults DeleteItems \<and> \<not> no_faults InsertItems
   \<and> list_all (\<lambda>item. ReceiptItem.add_ons item \<noteq> None) revised_items
   \<and> find_order placed_store 0 = Some placed_order
   \<and> updateOrder no_faults 0 revised_items (15 / 2) placed_store
        = (fst (updateOrder no_faults 0 revised_items (15 / 2) placed_store), Inr ())
   \<and> find_order (fst (updateOrder no_faults 0 revised_items (15 / 2) placed_store)) 0
        = Some (placed_order\<lparr>total_price := 15 / 2\<rparr>)
   \<and> length (items_of (fst (updateOrder no_faults 0 revised_items (15 / 2) placed_store)) 0) = 2
   \<and> map row_fields (items_of (fst (updateOrder no_faults 0 revised_items (15 / 2) placed_store)) 0)
        = [(js ''Latte'', js ''large'', js ''hot'', None, js ''regular'', js ''none'',
            Some [(js ''Vanilla'', 1, 1 / 2)], 4, None),
           (js ''Cookie'', js ''large'', js ''hot'', None, js ''regular'', js ''none'',
            Some [], 3, None)]"
proof -
  have a: "\<not> no_faults UpdateTotal \<and> \<not> no_faults DeleteItems \<and> \<not> no_faults InsertItems"
    by (simp add: no_faults_def)
  have w: "list_all (\<lambda>item. ReceiptItem.add_ons item \<noteq> None) revised_items"
    by (simp add: revised_items_def receipt_item_def)
  have b: "find_order placed_store 0 = Some placed_order"
    by (simp add: find_order_def placed_store_def placed_order_def)
  have c: "updateOrder no_faults 0 revised_items (15 / 2) placed_store
        = (fst (updateOrder no_faults 0 revised_items (15 / 2) placed_store), Inr ())"
    using a w updateOrder_replaces [of no_faults revised_items 0 "15 / 2" placed_store]
    by (simp add: prod_eq_iff)
  have v: "map item_fields revised_items
        = [(js ''Latte'', js ''large'', js ''hot'', None, js ''regular'', js ''none'',
            Some [(js ''Vanilla'', 1, 1 / 2)], 4, None),
           (js ''Cookie'', js ''large'', js ''hot'', None, js ''regular'', js ''none'',
            Some [], 3, None)]"
    by (simp add: revised_items_def receipt_item_def item_fields_def vanilla_def)
  have l: "length revised_items = 2"
    by (simp add: revised_items_def)
  show ?thesis
    using a w b c v l
      updateOrder_replaces [of no_faults revised_items 0 "15 / 2" placed_store placed_order
        "fst (updateOrder no_faults 0 revised_items (15 / 2) placed_store)"]
    by simp
qed

section \<open>Properties of the speech playback adapter\<close>

subsection \<open>Claim C4\<close>

lemma stop_fst:
  "fst (stop t) =
     t\<lparr>sessions := (case abortControllerRef t of
                       Some c \<Rightarrow> (sessions t)[c := (sessions t ! c)\<lparr>aborted := True\<rparr>]
                     | None \<Rightarrow> sessions t),
       abortControllerRef := None, audioRef := None, isSpeaking := False\<rparr>"
  by (simp add: stop_def split: option.splits)

lemma stop_snd:
  "snd (stop t) =
     (case abortControllerRef t of Some c \<Rightarrow> [Abort c] | None \<Rightarrow> [])
     @ (case audioRef t of Some a \<Rightarrow> [PauseAudio a] | None \<Rightarrow> [])"
  by (simp add: stop_def split: option.splits)

lemma stop_twice: "stop (fst (stop t)) = (fst (stop t), [])"
  by (simp add: prod_eq_iff stop_snd) (simp add: stop_fst)

lemma stop_aborts:
  "abortControllerRef t = Some c \<Longrightarrow> c < length (sessions t) \<Longrightarrow> is_aborted (fst (stop t)) c"
  by (simp add: stop_fst is_aborted_def)

lemma onEnd_sources:
  "OnEnd \<in> set (snd (tts_step ev t)) \<Longrightarrow>
     (\<exists>i. ev = FetchNotOk i \<or> ev = FetchRejected i False \<or> (ev = TailElapsed i \<and> \<not> is_aborted t i)
          \<or> ev = AudioError i \<or> ev = PlayRejected i)"
  by (cases ev) (auto simp: completed_speech_def split: if_splits)

text \<open>
  What holds of \<open>stop\<close>: it is idempotent, a second \<open>stop\<close> changes nothing and asks
  nothing of the platform; \<open>stop\<close> itself does not call \<open>onEnd\<close>; it marks the current
  session aborted, and three of the continuations an aborted session can reach (the
  \<open>AbortError\<close> of the fetch, the check after the blob, the check in the trailing timeout)
  do not call \<open>onEnd\<close> either. The events after which \<open>onEnd\<close> is called are listed in
  the last part: among them are the audio error and the rejected \<open>play\<close>, whatever the
  session's abort flag says.
\<close>

lemma stop_idempotent_silent:
  "stop (fst (stop t)) = (fst (stop t), [])
   \<and> OnEnd \<notin> set (snd (stop t))
   \<and> (abortControllerRef t = Some c \<and> c < length (sessions t) \<longrightarrow> is_aborted (fst (stop t)) c)
   \<and> OnEnd \<notin> set (snd (tts_step (FetchRejected i True) t))
   \<and> (is_aborted t i \<longrightarrow> OnEnd \<notin> set (snd (tts_step (BlobReady i) t))
                       \<and> OnEnd \<notin> set (snd (tts_step (TailElapsed i) t)))
   \<and> (OnEnd \<in> set (snd (tts_step ev t)) \<longrightarrow>
        (\<exists>j. ev = FetchNotOk j \<or> ev = FetchRejected j False
             \<or> (ev = TailElapsed j \<and> \<not> is_aborted t j)
             \<or> ev = AudioError j \<or> ev = PlayRejected j))"
proof -
  have 1: "OnEnd \<notin> set (snd (stop t))"
    by (simp add: stop_snd split: option.splits)
  have 2: "OnEnd \<notin> set (snd (tts_step (FetchRejected i True) t))"
    by simp
  have 3: "OnEnd \<notin> set (snd (tts_step (BlobReady i) t)) \<and> OnEnd \<notin> set (snd (tts_step (TailElapsed i) t))"
    if "is_aborted t i"
    using that by simp
  from stop_twice [of t] 1 stop_aborts [of t c] 2 3 onEnd_sources [of ev t]
  show ?thesis by blast
qed

lemma speaking_hi_eval:
  "speaking_hi = \<lparr>sessions = [\<lparr>aborted = False, phase = Fetching\<rparr>], abortControllerRef = Some 0,
                  audioRef = None, isSpeaking = True\<rparr>"
  by (simp add: speaking_hi_def speak_def stop_def tts_init_def regex_eval)

lemma stopped_playback_eval:
  "stopped_playback =
     (initial True 0)
       \<lparr>speech := \<lparr>sessions = [\<lparr>aborted = True, phase = Playing\<rparr>], abortControllerRef = None,
                   audioRef = None, isSpeaking = False\<rparr>,
        mic := (mic_init True)\<lparr>recognitionRef := Some 0, created := 1\<rparr>,
        speakers := [(0, Greeting_id)],
        trace := [SpeakMessage Greeting_id GREETING_TEXT, Tts (FetchTts 0 GREETING_TEXT),
                  Tts (PlayAudio 0), Tts (Abort 0), Tts (PauseAudio 0), Mic (RecognitionStart 0)]\<rparr>"
  by (simp add: stopped_playback_def run_defs greeting_nonempty)

lemma stopped_tail_eval:
  "speech stopped_tail
     = \<lparr>sessions = [\<lparr>aborted = True, phase = Draining\<rparr>], abortControllerRef = None,
        audioRef = None, isSpeaking = False\<rparr>"
  by (simp add: stopped_tail_def run_defs greeting_nonempty)

text \<open>
  C4 has \<open>onEnd\<close> fire on natural completion or soft failure only, never as a result of an
  explicit \<open>stop\<close>; so do the comments of the source, and the trailing timeout of
  \<open>onended\<close> tests the abort flag for that reason. The handlers \<open>audio.onerror\<close> and the
  \<open>catch\<close> of \<open>audio.play()\<close> do not test it. In the example the greeting is playing when
  the microphone button is pressed: \<open>stop\<close> aborts the session, pauses the element and
  empties its source, and the recognizer is started for the customer. An error event of
  the stopped element, or the rejection of its \<open>play\<close>, then calls \<open>onEnd\<close>: the controller
  takes the message for finished, runs \<open>activateMic\<close>, and the recognizer the customer
  started is aborted for a new one. Had the element ended before the press, the trailing
  timeout of the stopped session would have called nothing.
\<close>

theorem audio_error_after_stop_calls_onEnd:
  "trace stopped_playback
     = [SpeakMessage Greeting_id GREETING_TEXT, Tts (FetchTts 0 GREETING_TEXT),
        Tts (PlayAudio 0), Tts (Abort 0), Tts (PauseAudio 0), Mic (RecognitionStart 0)]
   \<and> is_aborted (speech stopped_playback) 0
   \<and> snd (tts_step (AudioError 0) (speech stopped_playback)) = [OnEnd, SpeakReturned 0]
   \<and> snd (tts_step (PlayRejected 0) (speech stopped_playback)) = [OnEnd, SpeakReturned 0]
   \<and> trace (step demo_parse demo_cast stopped_playback (Speech (AudioError 0)))
       = trace stopped_playback
         @ [Tts OnEnd, ActivateMic, Mic (RecognitionAbort 0), Mic (RecognitionStart 1),
            SetTimeout 0 5000]
   \<and> trace (step demo_parse demo_cast stopped_playback (Speech (PlayRejected 0)))
       = trace stopped_playback
         @ [Tts OnEnd, ActivateMic, Mic (RecognitionAbort 0), Mic (RecognitionStart 1),
            SetTimeout 0 5000]
   \<and> activations stopped_playback = 0
   \<and> activations (step demo_parse demo_cast stopped_playback (Speech (AudioError 0))) = 1
   \<and> is_aborted (speech stopped_tail) 0
   \<and> snd (tts_step (TailElapsed 0) (speech stopped_tail)) = []"
proof -
  have a: "trace stopped_playback
     = [SpeakMessage Greeting_id GREETING_TEXT, Tts (FetchTts 0 GREETING_TEXT),
        Tts (PlayAudio 0), Tts (Abort 0), Tts (PauseAudio 0), Mic (RecognitionStart 0)]"
    by (simp add: stopped_playback_eval)
  have b: "is_aborted (speech stopped_playback) 0"
    by (simp add: stopped_playback_eval is_aborted_def)
  have c: "snd (tts_step (AudioError 0) (speech stopped_playback)) = [OnEnd, SpeakReturned 0]"
    "snd (tts_step (PlayRejected 0) (speech stopped_playback)) = [OnEnd, SpeakReturned 0]"
    by (simp_all add: stopped_playback_eval in_phase_def completed_speech_def)
  have d: "trace (step demo_parse demo_cast stopped_playback (Speech (AudioError 0)))
       = trace stopped_playback
         @ [Tts OnEnd, ActivateMic, Mic (RecognitionAbort 0), Mic (RecognitionStart 1),
            SetTimeout 0 5000]"
    by (simp add: stopped_playback_eval run_defs)
  have e: "trace (step demo_parse demo_cast stopped_playback (Speech (PlayRejected 0)))
       = trace stopped_playback
         @ [Tts OnEnd, ActivateMic, Mic (RecognitionAbort 0), Mic (RecognitionStart 1),
            SetTimeout 0 5000]"
    by (simp add: stopped_playback_eval run_defs)
  have f: "activations stopped_playback = 0"
    by (simp add: activations_def a)
  have g: "activations (step demo_parse demo_cast stopped_playback (Speech (AudioError 0))) = 1"
    unfolding activations_def d a by simp
  have h: "is_aborted (speech stopped_tail) 0"
    "snd (tts_step (TailElapsed 0) (speech stopped_tail)) = []"
    by (simp_all add: stopped_tail_eval is_aborted_def in_phase_def set_phase_def)
  from a b c d e f g h show ?thesis by blast
qed

section \<open>Properties of the turn controller\<close>

subsection \<open>Effects and frames of the handlers\<close>

lemmas prim_defs = emit_def clearAutoListenTimer_def start_listening_def stop_listening_def
  startListening_def stopListening_def clear_speaking_def logged_def

lemma emit_emit: "emit b (emit a s) = emit (a @ b) s"
  by (simp add: emit_def)

lemma emit_nil: "emit [] s = s"
  by (simp add: emit_def)

lemma plain_effects:
  "\<forall>e \<in> set es. e \<noteq> OnEnd \<and> (\<forall>i. e \<noteq> SpeakReturned i)
     \<Longrightarrow> foldl on_tts_effect s es = emit (map Tts es) s"
proof (induction es arbitrary: s)
  case Nil
  show ?case by (simp add: emit_nil)
next
  case (Cons e es)
  then have "on_tts_effect s e = emit [Tts e] s"
    by (cases e) simp_all
  with Cons show ?case by (simp add: emit_emit)
qed

lemma stop_effects_plain: "\<forall>e \<in> set (snd (stop t)). e \<noteq> OnEnd \<and> (\<forall>i. e \<noteq> SpeakReturned i)"
  by (auto simp: stop_snd split: option.splits)

lemma stop_speech_eq:
  "stop_speech s = emit (map Tts (snd (stop (speech s)))) (s\<lparr>speech := fst (stop (speech s))\<rparr>)"
proof -
  obtain t es where st: "stop (speech s) = (t, es)" by (cases "stop (speech s)")
  have "\<forall>e \<in> set es. e \<noteq> OnEnd \<and> (\<forall>i. e \<noteq> SpeakReturned i)"
    using stop_effects_plain [of "speech s"] by (simp add: st)
  then have "foldl on_tts_effect (s\<lparr>speech := t\<rparr>) es = emit (map Tts es) (s\<lparr>speech := t\<rparr>)"
    by (rule plain_effects)
  then show ?thesis by (simp add: stop_speech_def st)
qed

lemma clear_timer_trace:
  "trace (clearAutoListenTimer s)
     = trace s @ (case autoListenTimerRef s of Some t \<Rightarrow> [ClearTimeout t] | None \<Rightarrow> [])"
  by (simp add: prim_defs split: option.splits)

lemma clear_timer_ref: "autoListenTimerRef (clearAutoListenTimer s) = None"
  by (simp add: prim_defs split: option.splits)

lemma clear_timer_removes: "autoListenTimerRef s = Some t \<Longrightarrow> t \<notin> set (timers (clearAutoListenTimer s))"
  by (simp add: prim_defs)

lemma clear_timer_frame [simp]:
  "speech (clearAutoListenTimer s) = speech s"
  "turns (clearAutoListenTimer s) = turns s"
  "messages (clearAutoListenTimer s) = messages s"
  "store (clearAutoListenTimer s) = store s"
  "mic (clearAutoListenTimer s) = mic s"
  by (simp_all add: prim_defs split: option.splits)

lemma messages_prims [simp]:
  "messages (emit es s) = messages s"
  "messages (start_listening s) = messages s"
  "messages (stop_listening s) = messages s"
  "messages (clear_speaking m s) = messages s"
  "turns (emit es s) = turns s"
  "turns (start_listening s) = turns s"
  "turns (stop_listening s) = turns s"
  "turns (clear_speaking m s) = turns s"
  by (simp_all add: prim_defs Let_def split: option.splits prod.splits)

lemma frame_activateMic [simp]:
  "messages (activateMic s) = messages s" "turns (activateMic s) = turns s"
  by (simp_all add: activateMic_def Let_def)

lemma frame_onTtsEnd [simp]:
  "messages (onTtsEnd s) = messages s" "turns (onTtsEnd s) = turns s"
  by (simp_all add: onTtsEnd_def)

lemma frame_on_tts_effect [simp]:
  "messages (on_tts_effect s e) = messages s" "turns (on_tts_effect s e) = turns s"
  by (cases e; simp split: option.splits)+

lemma frame_effects [simp]:
  "messages (foldl on_tts_effect s es) = messages s" "turns (foldl on_tts_effect s es) = turns s"
  by (induction es arbitrary: s) simp_all

lemma frame_speakMessage [simp]:
  "messages (speakMessage m text s) = messages s" "turns (speakMessage m text s) = turns s"
  by (simp_all add: speakMessage_def Let_def split: prod.splits option.splits)

lemma handleSend_turns: "turns (handleSend text now s) = turns s @ [new_turn]"
  by (simp add: handleSend_def Let_def stop_speech_eq new_turn_def)

lemma handleSend_messages:
  "messages (handleSend text now s) = messages s @ [plain_message (User_id now) Customer text now]"
  by (simp add: handleSend_def Let_def stop_speech_eq)

lemma stream_chunk_first:
  assumes "k < length (turns s)" and "pending (turns s ! k)" and "streamingId (turns s ! k) = None"
  shows "messages (stream_chunk k chunk now s)
           = messages s @ [plain_message (Cashier_id now) Cashier (fullContent (turns s ! k) @ chunk) now]"
  using assms
  by (simp add: stream_chunk_def receive_chunk_def Let_def split: prod.splits option.splits)


subsection \<open>Claim C1\<close>

text \<open>\<open>orderCompleteRef\<close> is written only by the receipt branches and by the two handlers
  that reopen the order; \<open>activateMic\<close> is called only behind a test of it.\<close>

lemma oc_prims [simp]:
  "orderCompleteRef (emit es s) = orderCompleteRef s"
  "orderCompleteRef (clearAutoListenTimer s) = orderCompleteRef s"
  "orderCompleteRef (start_listening s) = orderCompleteRef s"
  "orderCompleteRef (stop_listening s) = orderCompleteRef s"
  "orderCompleteRef (clear_speaking m s) = orderCompleteRef s"
  "orderCompleteRef (logged res s) = orderCompleteRef s"
  by (simp_all add: prim_defs Let_def split: option.splits prod.splits sum.splits)

lemma act_prims [simp]:
  "activations (emit es s) = activations s + count_list es ActivateMic"
  "activations (clearAutoListenTimer s) = activations s"
  "activations (start_listening s) = activations s"
  "activations (stop_listening s) = activations s"
  "activations (clear_speaking m s) = activations s"
  "activations (logged res s) = activations s"
  by (auto simp: activations_def prim_defs Let_def split: option.splits prod.splits sum.splits)

lemma act_update [simp]:
  "activations (s\<lparr>messages := a\<rparr>) = activations s"
  "activations (s\<lparr>isTyping := b\<rparr>) = activations s"
  "activations (s\<lparr>isResponding := b\<rparr>) = activations s"
  "activations (s\<lparr>speakingMessageId := c\<rparr>) = activations s"
  "activations (s\<lparr>voiceModeRef := b\<rparr>) = activations s"
  "activations (s\<lparr>isMutedRef := b\<rparr>) = activations s"
  "activations (s\<lparr>isRespondingRef := b\<rparr>) = activations s"
  "activations (s\<lparr>orderCompleteRef := b\<rparr>) = activations s"
  "activations (s\<lparr>ttsEndedWhileRespondingRef := b\<rparr>) = activations s"
  "activations (s\<lparr>modifyingOrderIdRef := d\<rparr>) = activations s"
  "activations (s\<lparr>modifyingReceiptMsgIdRef := c\<rparr>) = activations s"
  "activations (s\<lparr>autoListenTimerRef := e\<rparr>) = activations s"
  "activations (s\<lparr>speech := f\<rparr>) = activations s"
  "activations (s\<lparr>mic := g\<rparr>) = activations s"
  "activations (s\<lparr>store := h\<rparr>) = activations s"
  "activations (s\<lparr>timers := i\<rparr>) = activations s"
  "activations (s\<lparr>nextTimer := j\<rparr>) = activations s"
  "activations (s\<lparr>turns := k\<rparr>) = activations s"
  "activations (s\<lparr>speakers := l\<rparr>) = activations s"
  by (simp_all add: activations_def)

lemma oc_activateMic [simp]: "orderCompleteRef (activateMic s) = orderCompleteRef s"
  by (simp add: activateMic_def Let_def)

lemma oc_onTtsEnd [simp]: "orderCompleteRef (onTtsEnd s) = orderCompleteRef s"
  by (simp add: onTtsEnd_def)

lemma act_onTtsEnd: "orderCompleteRef s \<Longrightarrow> activations (onTtsEnd s) = activations s"
  by (simp add: onTtsEnd_def)

lemma oc_on_tts_effect [simp]: "orderCompleteRef (on_tts_effect s e) = orderCompleteRef s"
  by (cases e) (simp_all split: option.splits)

lemma act_on_tts_effect: "orderCompleteRef s \<Longrightarrow> activations (on_tts_effect s e) = activations s"
  by (cases e) (simp_all add: act_onTtsEnd split: option.splits)

lemma oc_effects [simp]: "orderCompleteRef (foldl on_tts_effect s es) = orderCompleteRef s"
  by (induction es arbitrary: s) simp_all

lemma act_effects: "orderCompleteRef s \<Longrightarrow> activations (foldl on_tts_effect s es) = activations s"
  by (induction es arbitrary: s) (simp_all add: act_on_tts_effect)

lemma oc_stop_speech [simp]: "orderCompleteRef (stop_speech s) = orderCompleteRef s"
  by (simp add: stop_speech_def split: prod.splits)

lemma act_stop_speech: "orderCompleteRef s \<Longrightarrow> activations (stop_speech s) = activations s"
  by (simp add: stop_speech_def act_effects split: prod.splits)

lemma oc_speakMessage [simp]: "orderCompleteRef (speakMessage m text s) = orderCompleteRef s"
  by (simp add: speakMessage_def Let_def split: prod.splits option.splits)

lemma act_speakMessage: "orderCompleteRef s \<Longrightarrow> activations (speakMessage m text s) = activations s"
  by (simp add: speakMessage_def Let_def act_effects split: prod.splits option.splits)

lemma oc_speech_event [simp]: "orderCompleteRef (speech_event ev s) = orderCompleteRef s"
  by (simp add: speech_event_def split: prod.splits)

lemma act_speech_event: "orderCompleteRef s \<Longrightarrow> activations (speech_event ev s) = activations s"
  by (simp add: speech_event_def act_effects split: prod.splits)

lemma oc_handleSend [simp]: "orderCompleteRef (handleSend text now s) = orderCompleteRef s"
  by (simp add: handleSend_def Let_def)

lemma act_handleSend: "orderCompleteRef s \<Longrightarrow> activations (handleSend text now s) = activations s"
  by (simp add: handleSend_def Let_def act_stop_speech)

lemma oc_finally [simp]: "orderCompleteRef (handleSend_finally k s) = orderCompleteRef s"
  by (simp add: handleSend_finally_def Let_def)

lemma act_finally: "orderCompleteRef s \<Longrightarrow> activations (handleSend_finally k s) = activations s"
  by (simp add: handleSend_finally_def Let_def)

lemma oc_stream_chunk [simp]: "orderCompleteRef (stream_chunk k chunk now s) = orderCompleteRef s"
  by (simp add: stream_chunk_def Let_def split: prod.splits option.splits)

lemma act_stream_chunk: "orderCompleteRef s \<Longrightarrow> activations (stream_chunk k chunk now s) = activations s"
  by (simp add: stream_chunk_def Let_def act_speakMessage split: prod.splits option.splits)

lemma oc_finish_update [simp]: "orderCompleteRef (finish_update fails oid m sid full dc r s)"
  by (simp add: finish_update_def Let_def split: prod.splits)

lemma act_finish_update [simp]: "activations (finish_update fails oid m sid full dc r s) = activations s"
  by (simp add: finish_update_def Let_def split: prod.splits)

lemma oc_finish_complete [simp]: "orderCompleteRef (finish_complete fails sid full dc r s)"
  by (simp add: finish_complete_def Let_def split: prod.splits)

lemma act_finish_complete [simp]: "activations (finish_complete fails sid full dc r s) = activations s"
  by (simp add: finish_complete_def Let_def split: prod.splits)

lemma oc_finish_receipt: "orderCompleteRef s \<Longrightarrow> orderCompleteRef (finish_receipt fails sid full dc r s)"
  by (simp add: finish_receipt_def split: option.splits)

lemma act_finish_receipt [simp]: "activations (finish_receipt fails sid full dc r s) = activations s"
  by (simp add: finish_receipt_def split: option.splits)

lemma locked_stream_end:
  assumes "orderCompleteRef s"
  shows "orderCompleteRef (stream_end P C k fails now s)"
    and "activations (stream_end P C k fails now s) = activations s"
  using assms
  by (simp_all add: stream_end_def Let_def act_finally act_speakMessage oc_finish_receipt
        split: option.splits)

lemma oc_stream_error [simp]: "orderCompleteRef (stream_error k now s) = orderCompleteRef s"
  by (simp add: stream_error_def Let_def)

lemma act_stream_error: "orderCompleteRef s \<Longrightarrow> activations (stream_error k now s) = activations s"
  by (simp add: stream_error_def Let_def act_finally)

lemma oc_onFinalSpeech [simp]: "orderCompleteRef (onFinalSpeech text now s) = orderCompleteRef s"
  by (simp add: onFinalSpeech_def)

lemma act_onFinalSpeech: "orderCompleteRef s \<Longrightarrow> activations (onFinalSpeech text now s) = activations s"
  by (simp add: onFinalSpeech_def act_handleSend)

lemma oc_handleStartListening [simp]: "orderCompleteRef (handleStartListening s) = orderCompleteRef s"
  by (simp add: handleStartListening_def)

lemma act_handleStartListening:
  "orderCompleteRef s \<Longrightarrow> activations (handleStartListening s) = activations s"
  by (simp add: handleStartListening_def act_stop_speech)

lemma locked_step:
  assumes "orderCompleteRef s" and "\<not> reopens e"
  shows "orderCompleteRef (step P C s e) \<and> activations (step P C s e) = activations s"
proof (cases e)
  case (StreamEnd k fails now)
  then show ?thesis using assms locked_stream_end by simp
next
  case (RecognitionEnded now)
  then show ?thesis using assms
    by (simp add: recognition_ended_def Let_def act_onFinalSpeech split: prod.splits option.splits)
qed (use assms in \<open>simp_all add: handleBegin_def handleBeginText_def chat_input_send_def Let_def
      handleSelectItem_def handleMicPress_def toggle_mute_def replay_def silence_timeout_def
      act_speakMessage act_handleSend act_handleStartListening act_stop_speech
      act_stream_chunk act_stream_error act_speech_event
      split: option.splits\<close>)

text \<open>
  C1: handling a receipt (the \<open>order_complete\<close> branch or the \<open>order_update\<close> branch of
  \<open>handleSend\<close>) sets \<open>orderCompleteRef\<close>. Once it is set, it stays set and \<open>activateMic\<close>
  is not called, whatever events follow (speech ending any number of times, streams ending
  with the deferred flag set, timers, taps), until the user starts a new order or asks to
  modify the order.
\<close>

theorem completed_order_never_reactivates:
  "orderCompleteRef (finish_complete fails sid full dc r s0)
   \<and> orderCompleteRef (finish_update fails oid m sid full dc r s0)
   \<and> (orderCompleteRef s \<and> (\<forall>e \<in> set evs. \<not> reopens e)
        \<longrightarrow> orderCompleteRef (run P C s evs) \<and> activations (run P C s evs) = activations s)"
proof -
  have "orderCompleteRef s \<and> (\<forall>e \<in> set evs. \<not> reopens e)
        \<longrightarrow> orderCompleteRef (run P C s evs) \<and> activations (run P C s evs) = activations s"
  proof (induction evs arbitrary: s)
    case Nil
    show ?case by (simp add: run_def)
  next
    case (Cons e evs)
    show ?case
    proof
      assume a: "orderCompleteRef s \<and> (\<forall>x \<in> set (e # evs). \<not> reopens x)"
      then have st: "orderCompleteRef (step P C s e) \<and> activations (step P C s e) = activations s"
        using locked_step by simp
      from a have "\<forall>x \<in> set evs. \<not> reopens x" by simp
      with st Cons.IH [of "step P C s e"]
      have "orderCompleteRef (run P C (step P C s e) evs)
            \<and> activations (run P C (step P C s e) evs) = activations (step P C s e)"
        by blast
      with st show "orderCompleteRef (run P C s (e # evs))
                    \<and> activations (run P C s (e # evs)) = activations s"
        by (simp add: run_def)
    qed
  qed
  then show ?thesis by simp
qed

theorem completed_order_never_reactivates_witness:
  "orderCompleteRef order_placed
   \<and> list_all (\<lambda>e. \<not> reopens e)
         [Speech (FetchNotOk 0), StreamEnd 1 no_faults 6, SilenceTimeout 0,
          Replay Greeting_id, Speech (FetchNotOk 1), Send (js ''Thanks'') 8, StreamError 2 9]
   \<and> orderCompleteRef (run demo_parse demo_cast order_placed
        [Speech (FetchNotOk 0), StreamEnd 1 no_faults 6, SilenceTimeout 0,
         Replay Greeting_id, Speech (FetchNotOk 1), Send (js ''Thanks'') 8, StreamError 2 9])
   \<and> activations (run demo_parse demo_cast order_placed
        [Speech (FetchNotOk 0), StreamEnd 1 no_faults 6, SilenceTimeout 0,
         Replay Greeting_id, Speech (FetchNotOk 1), Send (js ''Thanks'') 8, StreamError 2 9])
       = activations order_placed"
proof -
  have a: "orderCompleteRef order_placed"
    by (simp add: order_placed_def)
  have b: "\<forall>e \<in> set [Speech (FetchNotOk 0), StreamEnd 1 no_faults 6, SilenceTimeout 0,
                  Replay Greeting_id, Speech (FetchNotOk 1), Send (js ''Thanks'') 8,
                  StreamError 2 9]. \<not> reopens e"
    by simp
  have c: "list_all (\<lambda>e. \<not> reopens e)
         [Speech (FetchNotOk 0), StreamEnd 1 no_faults 6, SilenceTimeout 0,
          Replay Greeting_id, Speech (FetchNotOk 1), Send (js ''Thanks'') 8, StreamError 2 9]"
    by simp
  show ?thesis
    using a b c completed_order_never_reactivates [where s = order_placed
      and evs = "[Speech (FetchNotOk 0), StreamEnd 1 no_faults 6, SilenceTimeout 0,
        Replay Greeting_id, Speech (FetchNotOk 1), Send (js ''Thanks'') 8, StreamError 2 9]"
      and P = demo_parse and C = demo_cast]
    by blast
qed

subsection \<open>Claim C10\<close>

text \<open>
  C10: a final transcript that arrives while \<open>isResponding\<close> holds, or that is empty or
  white space only, is dropped by \<open>onFinalSpeech\<close>: the state is left as it was, so no
  customer turn is appended and no model call is started. At the level of the recognizer's
  \<open>onend\<close> handler, which delivers the transcript, the conversation, the invocations of
  \<open>handleSend\<close> and the effects are unchanged while \<open>isResponding\<close> holds.
\<close>

theorem onFinalSpeech_discards:
  "(isResponding s \<or> trim text = [] \<longrightarrow> onFinalSpeech text now s = s)
   \<and> (isResponding s \<longrightarrow> messages (recognition_ended now s) = messages s
                         \<and> turns (recognition_ended now s) = turns s
                         \<and> trace (recognition_ended now s) = trace s)"
  by (simp add: onFinalSpeech_def recognition_ended_def recognition_onend_def Let_def
        split: prod.splits option.splits)

theorem onFinalSpeech_discards_witness:
  "isResponding taking_order
   \<and> onFinalSpeech (js ''and a mocha'') 4 taking_order = taking_order
   \<and> messages (recognition_ended 4 taking_order) = messages taking_order"
proof -
  have a: "isResponding taking_order"
    by (simp add: taking_order_def)
  show ?thesis
    using a onFinalSpeech_discards [of taking_order "js ''and a mocha''" 4]
    by blast
qed

subsection \<open>Claim C9\<close>

lemma ot_update [simp]:
  "one_timer (s\<lparr>messages := a\<rparr>) = one_timer s"
  "one_timer (s\<lparr>isTyping := b\<rparr>) = one_timer s"
  "one_timer (s\<lparr>isResponding := b\<rparr>) = one_timer s"
  "one_timer (s\<lparr>speakingMessageId := c\<rparr>) = one_timer s"
  "one_timer (s\<lparr>voiceModeRef := b\<rparr>) = one_timer s"
  "one_timer (s\<lparr>isMutedRef := b\<rparr>) = one_timer s"
  "one_timer (s\<lparr>isRespondingRef := b\<rparr>) = one_timer s"
  "one_timer (s\<lparr>orderCompleteRef := b\<rparr>) = one_timer s"
  "one_timer (s\<lparr>ttsEndedWhileRespondingRef := b\<rparr>) = one_timer s"
  "one_timer (s\<lparr>modifyingOrderIdRef := d\<rparr>) = one_timer s"
  "one_timer (s\<lparr>modifyingReceiptMsgIdRef := c\<rparr>) = one_timer s"
  "one_timer (s\<lparr>speech := f\<rparr>) = one_timer s"
  "one_timer (s\<lparr>mic := g\<rparr>) = one_timer s"
  "one_timer (s\<lparr>store := h\<rparr>) = one_timer s"
  "one_timer (s\<lparr>nextTimer := j\<rparr>) = one_timer s"
  "one_timer (s\<lparr>turns := k\<rparr>) = one_timer s"
  "one_timer (s\<lparr>speakers := l\<rparr>) = one_timer s"
  "one_timer (s\<lparr>trace := tr\<rparr>) = one_timer s"
  by (simp_all add: one_timer_def)

lemma ot_prims [simp]:
  "one_timer (emit es s) = one_timer s"
  "one_timer (start_listening s) = one_timer s"
  "one_timer (stop_listening s) = one_timer s"
  "one_timer (clear_speaking m s) = one_timer s"
  "one_timer (logged res s) = one_timer s"
  by (simp_all add: prim_defs Let_def split: option.splits prod.splits sum.splits)

lemma clear_timer_cleared:
  "one_timer s \<Longrightarrow> timers (clearAutoListenTimer s) = [] \<and> autoListenTimerRef (clearAutoListenTimer s) = None"
  by (auto simp: one_timer_def prim_defs split: option.splits)

lemma ot_clear [simp]: "one_timer s \<Longrightarrow> one_timer (clearAutoListenTimer s)"
  using clear_timer_cleared [of s] by (simp add: one_timer_def)

lemma timer_prims [simp]:
  "timers (emit es s) = timers s"
  "timers (start_listening s) = timers s"
  "timers (stop_listening s) = timers s"
  "autoListenTimerRef (emit es s) = autoListenTimerRef s"
  "autoListenTimerRef (start_listening s) = autoListenTimerRef s"
  "autoListenTimerRef (stop_listening s) = autoListenTimerRef s"
  "nextTimer (emit es s) = nextTimer s"
  "nextTimer (start_listening s) = nextTimer s"
  "nextTimer (clearAutoListenTimer s) = nextTimer s"
  by (simp_all add: prim_defs Let_def split: option.splits prod.splits)

lemma activateMic_arms:
  assumes "one_timer s"
  shows "timers (activateMic s) = [nextTimer s]"
    and "autoListenTimerRef (activateMic s) = Some (nextTimer s)"
    and "SetTimeout (nextTimer s) 5000 \<in> set (trace (activateMic s))"
proof -
  have "one_timer (emit [ActivateMic] s)" using assms by simp
  then have "timers (clearAutoListenTimer (emit [ActivateMic] s)) = []"
    using clear_timer_cleared by blast
  then show "timers (activateMic s) = [nextTimer s]"
    by (simp add: activateMic_def Let_def)
  show "autoListenTimerRef (activateMic s) = Some (nextTimer s)"
    by (simp add: activateMic_def Let_def)
  show "SetTimeout (nextTimer s) 5000 \<in> set (trace (activateMic s))"
    by (simp add: activateMic_def Let_def emit_def)
qed

lemma ot_activateMic [simp]: "one_timer s \<Longrightarrow> one_timer (activateMic s)"
  using activateMic_arms [of s] by (simp add: one_timer_def)

lemma ot_onTtsEnd [simp]: "one_timer s \<Longrightarrow> one_timer (onTtsEnd s)"
  by (simp add: onTtsEnd_def)

lemma ot_on_tts_effect [simp]: "one_timer s \<Longrightarrow> one_timer (on_tts_effect s e)"
  by (cases e) (simp_all split: option.splits)

lemma ot_effects [simp]: "one_timer s \<Longrightarrow> one_timer (foldl on_tts_effect s es)"
  by (induction es arbitrary: s) simp_all

lemma ot_stop_speech [simp]: "one_timer s \<Longrightarrow> one_timer (stop_speech s)"
  by (simp add: stop_speech_def split: prod.splits)

lemma ot_speakMessage [simp]: "one_timer s \<Longrightarrow> one_timer (speakMessage m text s)"
  by (simp add: speakMessage_def Let_def split: prod.splits option.splits)

lemma ot_speech_event [simp]: "one_timer s \<Longrightarrow> one_timer (speech_event ev s)"
  by (simp add: speech_event_def split: prod.splits)

lemma ot_handleSend [simp]: "one_timer s \<Longrightarrow> one_timer (handleSend text now s)"
  by (simp add: handleSend_def Let_def)

lemma ot_finally [simp]: "one_timer s \<Longrightarrow> one_timer (handleSend_finally k s)"
  by (simp add: handleSend_finally_def Let_def)

lemma ot_stream_chunk [simp]: "one_timer s \<Longrightarrow> one_timer (stream_chunk k chunk now s)"
  by (simp add: stream_chunk_def Let_def split: prod.splits option.splits)

lemma ot_finish_receipt [simp]: "one_timer s \<Longrightarrow> one_timer (finish_receipt fails sid full dc r s)"
  by (simp add: finish_receipt_def finish_update_def finish_complete_def Let_def
        split: option.splits prod.splits)

lemma ot_stream_end [simp]: "one_timer s \<Longrightarrow> one_timer (stream_end P C k fails now s)"
  by (simp add: stream_end_def Let_def split: option.splits)

lemma ot_stream_error [simp]: "one_timer s \<Longrightarrow> one_timer (stream_error k now s)"
  by (simp add: stream_error_def Let_def)

lemma ot_handleStartListening [simp]: "one_timer s \<Longrightarrow> one_timer (handleStartListening s)"
  by (simp add: handleStartListening_def)

lemma ot_handleNewOrder [simp]: "one_timer s \<Longrightarrow> one_timer (handleNewOrder now s)"
  by (simp add: handleNewOrder_def Let_def)

lemma ot_handleModifyOrder [simp]: "one_timer s \<Longrightarrow> one_timer (handleModifyOrder m oid now s)"
  by (simp add: handleModifyOrder_def Let_def)

lemma ot_silence_timeout [simp]: "one_timer s \<Longrightarrow> one_timer (silence_timeout t s)"
  by (auto simp: silence_timeout_def one_timer_def)











text \<open>
  The timeout stops the recognizer through \<open>recognitionRef\<close>, and the handlers of every
  recognizer write that one ref. When \<open>activateMic\<close> replaces a recognizer, it aborts the
  old one, whose \<open>onend\<close> then empties the ref of the new one. In the example the greeting
  is replayed while the recognizer of the first reactivation is open; after the second
  reactivation the first recognizer ends and the second starts. The guard is armed and the
  recognizer is listening, but the ref is empty, and the timeout asks nothing of the
  platform: the recognizer is not stopped.
\<close>

lemma silence_guard_without_ref:
  "timers clobbered_listening = [1]
   \<and> autoListenTimerRef clobbered_listening = Some 1
   \<and> recognitionRef (mic clobbered_listening) = None
   \<and> isListening (mic clobbered_listening)
   \<and> trace (silence_timeout 1 clobbered_listening) = trace clobbered_listening"
  by (simp add: clobbered_listening_def run_defs greeting_nonempty makeGreeting_def trim_nil)




subsection \<open>Claim C3\<close>

text \<open>
  What \<open>handleSend\<close> does on entry: it clears the silence-guard timeout, stops speech
  playback (which aborts the synthesis request in flight) and resets the deferred flag, and
  only then issues the new model call. The effects it adds are these cancellations
  followed by the \<open>fetch\<close>; none of them concerns an earlier invocation.
\<close>

lemma handleSend_entry:
  "trace (handleSend text now s)
     = trace s
       @ (case autoListenTimerRef s of Some t \<Rightarrow> [ClearTimeout t] | None \<Rightarrow> [])
       @ map Tts (snd (stop (speech s)))
       @ [FetchChat (length (turns s))
            (toApiMessages (messages s @ [plain_message (User_id now) Customer text now]))]
   \<and> autoListenTimerRef (handleSend text now s) = None
   \<and> (autoListenTimerRef s = Some t \<longrightarrow> t \<notin> set (timers (handleSend text now s)))
   \<and> speech (handleSend text now s) = fst (stop (speech s))
   \<and> abortControllerRef (speech (handleSend text now s)) = None
   \<and> audioRef (speech (handleSend text now s)) = None
   \<and> \<not> isSpeaking (speech (handleSend text now s))
   \<and> (abortControllerRef (speech s) = Some c \<and> c < length (sessions (speech s))
        \<longrightarrow> is_aborted (speech (handleSend text now s)) c)
   \<and> \<not> ttsEndedWhileRespondingRef (handleSend text now s)
   \<and> turns (handleSend text now s) = turns s @ [new_turn]"
proof -
  have sp: "speech (handleSend text now s) = fst (stop (speech s))"
    by (simp add: handleSend_def Let_def stop_speech_eq emit_def)
  have tr: "trace (handleSend text now s)
     = trace s
       @ (case autoListenTimerRef s of Some t \<Rightarrow> [ClearTimeout t] | None \<Rightarrow> [])
       @ map Tts (snd (stop (speech s)))
       @ [FetchChat (length (turns s))
            (toApiMessages (messages s @ [plain_message (User_id now) Customer text now]))]"
    by (simp add: handleSend_def Let_def stop_speech_eq emit_def clear_timer_trace)
  have rf: "autoListenTimerRef (handleSend text now s) = None"
    by (simp add: handleSend_def Let_def stop_speech_eq emit_def clear_timer_ref)
  have tm: "t \<notin> set (timers (handleSend text now s))" if "autoListenTimerRef s = Some t"
    using clear_timer_removes [OF that]
    by (simp add: handleSend_def Let_def stop_speech_eq emit_def)
  have fl: "\<not> ttsEndedWhileRespondingRef (handleSend text now s)"
    by (simp add: handleSend_def Let_def emit_def)
  have tu: "turns (handleSend text now s) = turns s @ [new_turn]"
    by (simp add: handleSend_def Let_def stop_speech_eq emit_def new_turn_def)
  have st: "abortControllerRef (fst (stop (speech s))) = None
            \<and> audioRef (fst (stop (speech s))) = None
            \<and> \<not> isSpeaking (fst (stop (speech s)))"
    by (simp add: stop_fst)
  from sp tr rf tm fl tu st stop_aborts [of "speech s" c] show ?thesis by simp
qed

lemma handleSend_responding: "isResponding (handleSend text now s)"
  by (simp add: handleSend_def Let_def emit_def)

lemma handleSend_trace_idle:
  assumes "autoListenTimerRef s = None" and "abortControllerRef (speech s) = None"
    and "audioRef (speech s) = None"
  shows "trace (handleSend text now s)
           = trace s @ [FetchChat (length (turns s))
                          (toApiMessages (messages s @ [plain_message (User_id now) Customer text now]))]"
  using assms by (simp add: handleSend_def Let_def stop_speech_eq emit_def clear_timer_trace stop_snd)

lemma handleSend_idle:
  assumes "autoListenTimerRef s = None" and "abortControllerRef (speech s) = None"
    and "audioRef (speech s) = None"
  shows "autoListenTimerRef (handleSend text now s) = None"
    and "abortControllerRef (speech (handleSend text now s)) = None"
    and "audioRef (speech (handleSend text now s)) = None"
  using assms by (simp_all add: handleSend_def Let_def stop_speech_eq emit_def clear_timer_ref stop_fst)

text \<open>
  C3 has the stream of the previous turn aborted when a new turn starts, so that a stale
  response can never be applied. The code has no means of aborting a model call; what
  keeps turns from overlapping is that each way of starting one is closed while a turn is
  in flight. In the example text mode has been chosen and a latte tapped in the menu, so
  the first turn is in flight. Then text submitted in the input, a final
  transcript and a press of the microphone button all leave the state as it is. A tap on
  a menu item does not: \<open>handleSelectItem\<close> calls \<open>handleSend\<close> without the test the others
  make. The second turn then starts beside the first, nothing but the two model calls is
  asked of the platform, the first invocation is still pending, and a chunk of its stream
  is applied to the conversation after the second customer turn.
\<close>

theorem menu_tap_overlaps_turn:
  "isResponding latte_turn
   \<and> chat_input_send (js ''Mocha'') 2 latte_turn = latte_turn
   \<and> onFinalSpeech (js ''Mocha'') 2 latte_turn = latte_turn
   \<and> handleMicPress latte_turn = latte_turn
   \<and> trace (step demo_parse demo_cast latte_turn (SelectItem (js ''Mocha'') 2))
       = [FetchChat 0 [(user, js ''I'd like a '' @ js ''Latte'')],
          FetchChat 1 [(user, js ''I'd like a '' @ js ''Latte''), (user, js ''I'd like a '' @ js ''Mocha'')]]
   \<and> map pending (turns (step demo_parse demo_cast latte_turn (SelectItem (js ''Mocha'') 2)))
       = [True, True]
   \<and> map (\<lambda>m. (ChatMessage.id m, content m))
         (messages (run demo_parse demo_cast latte_turn
                      [SelectItem (js ''Mocha'') 2, Chunk 0 (js ''One latte'') 3]))
       = [(Greeting_id, GREETING_TEXT),
          (User_id 1, js ''I'd like a '' @ js ''Latte''),
          (User_id 2, js ''I'd like a '' @ js ''Mocha''),
          (Cashier_id 3, js ''One latte'')]"
proof -
  define s0 where "s0 = handleBeginText (initial True 0)"
  define s1 where "s1 = handleSend (js ''I'd like a '' @ js ''Latte'') 1 s0"
  define s2 where "s2 = handleSend (js ''I'd like a '' @ js ''Mocha'') 2 s1"
  have l: "latte_turn = s1"
    by (simp add: latte_turn_def run_def handleSelectItem_def s1_def s0_def)
  have idle0: "autoListenTimerRef s0 = None"
    "abortControllerRef (speech s0) = None" "audioRef (speech s0) = None"
    by (simp_all add: s0_def handleBeginText_def initial_def tts_init_def)
  have init: "messages s0 = [makeGreeting 0]" "turns s0 = []" "trace s0 = []"
    by (simp_all add: s0_def handleBeginText_def initial_def)
  note idle1 = handleSend_idle [OF idle0, of "js ''I'd like a '' @ js ''Latte''" 1, folded s1_def]
  have r: "isResponding s1"
    by (simp add: s1_def handleSend_responding)
  have m1: "messages s1 = [makeGreeting 0, plain_message (User_id 1) Customer (js ''I'd like a '' @ js ''Latte'') 1]"
    by (simp add: s1_def handleSend_messages init)
  have m2: "messages s2 = messages s1 @ [plain_message (User_id 2) Customer (js ''I'd like a '' @ js ''Mocha'') 2]"
    by (simp add: s2_def handleSend_messages)
  have t1: "turns s1 = [new_turn]"
    by (simp add: s1_def handleSend_turns init)
  have t2: "turns s2 = [new_turn, new_turn]"
    by (simp add: s2_def handleSend_turns t1)
  have tr1: "trace s1 = [FetchChat 0 [(user, js ''I'd like a '' @ js ''Latte'')]]"
    by (simp add: s1_def handleSend_trace_idle [OF idle0] init)
       (simp add: toApiMessages_def makeGreeting_def plain_message_def)
  have tr2: "trace s2 = [FetchChat 0 [(user, js ''I'd like a '' @ js ''Latte'')],
                         FetchChat 1 [(user, js ''I'd like a '' @ js ''Latte''),
                                      (user, js ''I'd like a '' @ js ''Mocha'')]]"
    by (simp add: s2_def handleSend_trace_idle [OF idle1] tr1 t1 m1)
       (simp add: toApiMessages_def makeGreeting_def plain_message_def)
  have a: "chat_input_send (js ''Mocha'') 2 s1 = s1"
    using r by (simp add: chat_input_send_def Let_def)
  have b: "onFinalSpeech (js ''Mocha'') 2 s1 = s1"
    using r by (simp add: onFinalSpeech_def)
  have c: "handleMicPress s1 = s1"
    using r by (simp add: handleMicPress_def)
  have p: "0 < length (turns s2)" "pending (turns s2 ! 0)" "streamingId (turns s2 ! 0) = None"
    by (simp_all add: t2 new_turn_def)
  have ch: "messages (stream_chunk 0 (js ''One latte'') 3 s2)
      = messages s2 @ [plain_message (Cashier_id 3) Cashier (fullContent (turns s2 ! 0) @ js ''One latte'') 3]"
    using p by (rule stream_chunk_first)
  have e: "map (\<lambda>m. (ChatMessage.id m, content m)) (messages (stream_chunk 0 (js ''One latte'') 3 s2))
       = [(Greeting_id, GREETING_TEXT),
          (User_id 1, js ''I'd like a '' @ js ''Latte''),
          (User_id 2, js ''I'd like a '' @ js ''Mocha''),
          (Cashier_id 3, js ''One latte'')]"
    by (simp add: ch m2 m1 t2 new_turn_def makeGreeting_def plain_message_def)
  have st: "step demo_parse demo_cast s1 (SelectItem (js ''Mocha'') 2) = s2"
    by (simp add: handleSelectItem_def s2_def)
  have rn: "run demo_parse demo_cast s1 [SelectItem (js ''Mocha'') 2, Chunk 0 (js ''One latte'') 3]
              = stream_chunk 0 (js ''One latte'') 3 s2"
    by (simp add: run_def handleSelectItem_def s2_def)
  show ?thesis
    unfolding l st rn
    using r a b c tr2 e by (simp add: t2 new_turn_def)
qed

subsection \<open>Claim C2\<close>

lemma no_fence_no_match: "\<not> opens_fence s \<Longrightarrow> regex_exec s = None"
  by (induction s) (auto simp: match_here_def split: option.splits)

lemma speech_after_trigger:
  "ttsStarted t \<Longrightarrow> stream_speech P C voice muted sid chunks t = []"
proof (induction chunks arbitrary: t)
  case Nil
  then show ?case by (simp add: final_tts_def split: option.splits)
next
  case (Cons c cs)
  obtain t' say where rc: "receive_chunk voice muted sid c t = (t', say)"
    by (cases "receive_chunk voice muted sid c t")
  with Cons.prems have "ttsStarted t'" and "say = None"
    by (auto simp: receive_chunk_def Let_def)
  with Cons.IH [of t'] rc show ?case by simp
qed

lemma speech_at_most_once: "length (stream_speech P C voice muted sid chunks t) \<le> 1"
proof (induction chunks arbitrary: t)
  case Nil
  show ?case by (simp split: option.splits)
next
  case (Cons c cs)
  obtain t' say where rc: "receive_chunk voice muted sid c t = (t', say)"
    by (cases "receive_chunk voice muted sid c t")
  show ?case
  proof (cases say)
    case None
    with rc Cons.IH [of t'] show ?thesis by simp
  next
    case (Some e)
    with rc have "ttsStarted t'"
      by (auto simp: receive_chunk_def Let_def split: if_splits)
    then have "stream_speech P C voice muted sid cs t' = []"
      by (rule speech_after_trigger)
    with rc Some show ?thesis by simp
  qed
qed

lemma speech_below_threshold:
  assumes "\<not> ttsStarted t" and "length (fullContent t @ concat before) < 100"
  shows "\<exists>t'. stream_speech P C voice muted sid (before @ rest) t
                 = stream_speech P C voice muted sid rest t'
              \<and> fullContent t' = fullContent t @ concat before \<and> \<not> ttsStarted t'"
  using assms
proof (induction before arbitrary: t)
  case Nil
  then show ?case by auto
next
  case (Cons c cs)
  obtain t' say where rc: "receive_chunk voice muted sid c t = (t', say)"
    by (cases "receive_chunk voice muted sid c t")
  from Cons.prems have short: "length (fullContent t @ c) < 100" by simp
  with rc Cons.prems(1) have t': "fullContent t' = fullContent t @ c" "\<not> ttsStarted t'" "say = None"
    by (auto simp: receive_chunk_def Let_def)
  with Cons.prems have "length (fullContent t' @ concat cs) < 100" by simp
  from Cons.IH [OF t'(2) this] obtain t'' where
    "stream_speech P C voice muted sid (cs @ rest) t' = stream_speech P C voice muted sid rest t''"
    "fullContent t'' = fullContent t' @ concat cs" "\<not> ttsStarted t''"
    by blast
  with rc t' show ?case by auto
qed

lemma speech_at_threshold:
  assumes "\<not> ttsStarted t" and "100 \<le> length (fullContent t @ chunk)"
  shows "stream_speech P C True False sid (chunk # after) t
           = (if trim (stripReceiptBlock (fullContent t @ chunk)) = [] then []
              else [trim (stripReceiptBlock (fullContent t @ chunk))])"
proof -
  obtain t' say where rc: "receive_chunk True False sid chunk t = (t', say)"
    by (cases "receive_chunk True False sid chunk t")
  with assms have "ttsStarted t'"
    and say: "say = (if trim (stripReceiptBlock (fullContent t @ chunk)) = [] then None
                     else Some (trim (stripReceiptBlock (fullContent t @ chunk))))"
    by (auto simp: receive_chunk_def Let_def)
  then have "stream_speech P C True False sid after t' = []"
    using speech_after_trigger by blast
  with rc say show ?thesis by simp
qed

lemma speech_at_first_crossing:
  assumes "length (concat before) < 100" and "100 \<le> length (concat before @ chunk)"
  shows "stream_speech P C True False sid (before @ chunk # after) new_turn
           = (if trim (stripReceiptBlock (concat before @ chunk)) = [] then []
              else [trim (stripReceiptBlock (concat before @ chunk))])"
proof -
  have "\<not> ttsStarted new_turn" and "length (fullContent new_turn @ concat before) < 100"
    using assms by (simp_all add: new_turn_def)
  from speech_below_threshold [OF this, of P C True False sid "chunk # after"]
  obtain t' where
    "stream_speech P C True False sid (before @ chunk # after) new_turn
       = stream_speech P C True False sid (chunk # after) t'"
    "fullContent t' = fullContent new_turn @ concat before" "\<not> ttsStarted t'"
    by blast
  moreover have "fullContent new_turn = []" by (simp add: new_turn_def)
  ultimately show ?thesis
    using speech_at_threshold [of t' chunk P C sid after] assms by simp
qed

text \<open>
  C2, amended: an invocation of \<open>handleSend\<close> calls \<open>speakMessage\<close> at most once. In voice
  mode and not muted, at the first chunk with which the accumulated text reaches 100 code
  units the early trigger is taken, and nothing is spoken for this turn afterwards: if
  the accumulated text holds a complete receipt block, the text passed to speech is the
  accumulated text without its first block, trimmed; if it holds no opening fence, it is
  the accumulated text, trimmed; in both cases no call is made when that text is empty.
\<close>

theorem early_speech_once:
  "length (stream_speech P C voice muted sid chunks new_turn) \<le> 1
   \<and> (length (concat before) < 100 \<and> 100 \<le> length (concat before @ chunk)
        \<and> regex_exec (concat before @ chunk) = Some (pre, g, rest) \<longrightarrow>
      stream_speech P C True False sid (before @ chunk # after) new_turn
        = (if trim (pre @ rest) = [] then [] else [trim (pre @ rest)]))
   \<and> (length (concat before) < 100 \<and> 100 \<le> length (concat before @ chunk)
        \<and> \<not> opens_fence (concat before @ chunk) \<longrightarrow>
      stream_speech P C True False sid (before @ chunk # after) new_turn
        = (if trim (concat before @ chunk) = [] then [] else [trim (concat before @ chunk)]))"
proof -
  have a: "stream_speech P C True False sid (before @ chunk # after) new_turn
        = (if trim (pre @ rest) = [] then [] else [trim (pre @ rest)])"
    if "length (concat before) < 100" "100 \<le> length (concat before @ chunk)"
       "regex_exec (concat before @ chunk) = Some (pre, g, rest)"
    using speech_at_first_crossing [OF that(1,2), of P C sid after] that(3)
    by (simp add: stripReceiptBlock_def trim_idem)
  have b: "stream_speech P C True False sid (before @ chunk # after) new_turn
        = (if trim (concat before @ chunk) = [] then [] else [trim (concat before @ chunk)])"
    if "length (concat before) < 100" "100 \<le> length (concat before @ chunk)"
       "\<not> opens_fence (concat before @ chunk)"
    using speech_at_first_crossing [OF that(1,2), of P C sid after] no_fence_no_match [OF that(3)]
    by (simp add: stripReceiptBlock_def trim_idem)
  from speech_at_most_once [of P C voice muted sid chunks new_turn] a b show ?thesis by blast
qed

lemmas example_defs = forty_def closed_tail_def plain_tail_def receipt_only_def update_reply_def
  complete_json_def update_json_def

lemma receipt_only_long: "100 \<le> length receipt_only"
  by (simp add: example_defs js_def)

lemma receipt_only_stripped: "stripReceiptBlock receipt_only = []"
  by (simp add: example_defs stripReceiptBlock_def regex_eval)

text \<open>
  C2, as stated, has exactly one speech-start call once the threshold is reached. When
  the text that has arrived is nothing but a complete receipt block, the stripped text is
  empty: the early trigger is taken, nothing is spoken then, and nothing is spoken after
  the stream either.
\<close>

theorem receipt_only_stream_counterexample:
  "100 \<le> length receipt_only
   \<and> stream_speech demo_parse demo_cast True False (Cashier_id 2) [receipt_only] new_turn = []"
  using receipt_only_long receipt_only_stripped
        speech_at_first_crossing [of "[]" receipt_only demo_parse demo_cast "Cashier_id 2" "[]"]
  by (simp add: trim_def)

lemma closed_match:
  "regex_exec (concat [forty] @ closed_tail)
     = Some (forty @ js '' Your receipt: '', complete_json, js '' Enjoy!'')"
  by (simp add: example_defs regex_eval)

lemma plain_no_fence: "\<not> opens_fence (concat [forty] @ plain_tail)"
  by (simp add: example_defs js_def)

lemma example_lengths:
  "length (concat [forty]) < 100"
  "100 \<le> length (concat [forty] @ closed_tail)"
  "100 \<le> length (concat [forty] @ plain_tail)"
  by (simp_all add: example_defs js_def)

theorem early_speech_once_witness:
  "length (concat [forty]) < 100 \<and> 100 \<le> length (concat [forty] @ closed_tail)
   \<and> regex_exec (concat [forty] @ closed_tail)
        = Some (forty @ js '' Your receipt: '', complete_json, js '' Enjoy!'')
   \<and> stream_speech demo_parse demo_cast True False (Cashier_id 2) ([forty] @ closed_tail # []) new_turn
        = (if trim ((forty @ js '' Your receipt: '') @ js '' Enjoy!'') = [] then []
           else [trim ((forty @ js '' Your receipt: '') @ js '' Enjoy!'')])
   \<and> 100 \<le> length (concat [forty] @ plain_tail) \<and> \<not> opens_fence (concat [forty] @ plain_tail)
   \<and> stream_speech demo_parse demo_cast True False (Cashier_id 2) ([forty] @ plain_tail # []) new_turn
        = (if trim (concat [forty] @ plain_tail) = [] then [] else [trim (concat [forty] @ plain_tail)])"
  using example_lengths closed_match plain_no_fence
    early_speech_once [of demo_parse demo_cast True False "Cashier_id 2" "[]" "[forty]" closed_tail
       "forty @ js '' Your receipt: ''" complete_json "js '' Enjoy!''" "[]"]
    early_speech_once [of demo_parse demo_cast True False "Cashier_id 2" "[]" "[forty]" plain_tail
       "[]" "[]" "[]" "[]"]
  by blast


text \<open>
  When the opening fence has arrived and the closing fence has not, \<open>RECEIPT_REGEX\<close> does
  not match, and the early text is the whole accumulated text, the opening fence and the
  beginning of the JSON included.
\<close>

lemma unclosed_fence_spoken:
  "stream_speech demo_parse demo_cast True False (Cashier_id 2) [forty, unclosed_tail] new_turn
     = [forty @ unclosed_tail]"
proof -
  have a: "length (concat [forty]) < 100" "100 \<le> length (concat [forty] @ unclosed_tail)"
    by (simp_all add: forty_def unclosed_tail_def js_def)
  have b: "stripReceiptBlock (forty @ unclosed_tail) = forty @ unclosed_tail"
    by (simp add: forty_def unclosed_tail_def stripReceiptBlock_def regex_eval)
  have "trim (stripReceiptBlock (forty @ unclosed_tail)) = stripReceiptBlock (forty @ unclosed_tail)"
    by (simp add: stripReceiptBlock_def trim_idem)
  with b have c: "trim (stripReceiptBlock (forty @ unclosed_tail)) = forty @ unclosed_tail"
    by simp
  have d: "forty @ unclosed_tail \<noteq> []"
    by (simp add: forty_def js_def)
  have "stream_speech demo_parse demo_cast True False (Cashier_id 2) ([forty] @ unclosed_tail # []) new_turn
          = (if trim (stripReceiptBlock (concat [forty] @ unclosed_tail)) = [] then []
             else [trim (stripReceiptBlock (concat [forty] @ unclosed_tail))])"
    using a by (rule speech_at_first_crossing)
  with c d show ?thesis
    by (simp del: stream_speech.simps)
qed

subsection \<open>Claim C8\<close>

lemma store_frame [simp]:
  "store (emit es s) = store s"
  "store (stop_listening s) = store s"
  "store (logged res s) = store s"
  by (simp_all add: prim_defs Let_def split: option.splits prod.splits sum.splits)

lemma store_finish_complete:
  "store (finish_complete fails sid full dc r s) = fst (saveOrder fails r (store s))"
  by (simp add: finish_complete_def Let_def split: prod.splits)

lemma store_finish_update:
  "store (finish_update fails oid m sid full dc r s)
     = fst (updateOrder fails oid (items r) (OrderReceipt.total_price r) (store s))"
  by (simp add: finish_update_def Let_def split: prod.splits)

lemma saveOrder_row:
  assumes "\<not> fails InsertOrder"
  shows "\<exists>row. orders (fst (saveOrder fails r d)) = orders d @ [row]
              \<and> NewOrder.total_price row = OrderReceipt.total_price r"
  using assms
  by (simp add: saveOrder_def insert_order_def insert_items_def Let_def
        NewOrder.defs Order.defs split: prod.splits sum.splits)

lemma updateOrder_total:
  assumes "\<not> fails UpdateTotal" and "find_order d oid = Some ord"
  shows "find_order (fst (updateOrder fails oid its tot d)) oid = Some (ord\<lparr>total_price := tot\<rparr>)"
  using assms
  by (simp add: updateOrder_def update_total_def delete_items_def insert_items_def Let_def
        find_order_def find_update_total split: sum.splits)


lemma store_activateMic [simp]: "store (activateMic s) = store s"
  by (simp add: activateMic_def Let_def prim_defs split: option.splits prod.splits)

lemma store_onTtsEnd [simp]: "store (onTtsEnd s) = store s"
  by (simp add: onTtsEnd_def)

lemma store_on_tts_effect [simp]: "store (on_tts_effect s e) = store s"
  by (cases e) (simp_all add: prim_defs split: option.splits)

lemma store_effects [simp]: "store (foldl on_tts_effect s es) = store s"
  by (induction es arbitrary: s) simp_all

lemma store_speakMessage [simp]: "store (speakMessage m text s) = store s"
  by (simp add: speakMessage_def Let_def prim_defs split: prod.splits option.splits)

lemma store_finally [simp]: "store (handleSend_finally k s) = store s"
  by (simp add: handleSend_finally_def Let_def)

lemma store_stream_end:
  assumes "k < length (turns s)" and "pending (turns s ! k)"
    and "streamingId (turns s ! k) = Some sid"
    and "parseReceipt P C (fullContent (turns s ! k)) = Some r"
  shows "store (stream_end P C k fails now s)
           = store (finish_receipt fails sid (fullContent (turns s ! k))
                      (stripReceiptBlock (fullContent (turns s ! k))) r s)"
  using assms by (simp add: stream_end_def Let_def display_content_def split: option.splits)

lemma store_finish_receipt_complete:
  assumes "rtype r = order_complete" and "\<not> fails InsertOrder"
  shows "\<exists>row. orders (store (finish_receipt fails sid full dc r s)) = orders (store s) @ [row]
            \<and> NewOrder.total_price row = OrderReceipt.total_price r"
  using assms saveOrder_row [of fails r "store s"]
  by (simp add: finish_receipt_def store_finish_complete)

lemma store_finish_receipt_update:
  assumes "rtype r = order_update" and "modifying s = Some (oid, m)" and "\<not> fails UpdateTotal"
    and "find_order (store s) oid = Some ord"
  shows "find_order (store (finish_receipt fails sid full dc r s)) oid
        = Some (ord\<lparr>total_price := OrderReceipt.total_price r\<rparr>)"
  using assms updateOrder_total [of fails "store s" oid ord]
  by (simp add: finish_receipt_def store_finish_update)

text \<open>
  C8: when the stream of an invocation ends with a receipt, the total that reaches the
  store is the \<open>total_price\<close> the model stated, whatever the item prices add up to: for an
  \<open>order_complete\<close> receipt the inserted order row carries it, and for an \<open>order_update\<close>
  receipt of an order under modification the existing row is set to it. The stored total
  equals the sum of the item prices exactly when the stated total does.
\<close>

theorem persisted_total_is_stated_total:
  "(k < length (turns s) \<and> pending (turns s ! k) \<and> streamingId (turns s ! k) = Some sid
      \<and> parseReceipt P C (fullContent (turns s ! k)) = Some r
      \<and> rtype r = order_complete \<and> \<not> fails InsertOrder \<longrightarrow>
      (\<exists>row. orders (store (stream_end P C k fails now s)) = orders (store s) @ [row]
            \<and> NewOrder.total_price row = OrderReceipt.total_price r
            \<and> (NewOrder.total_price row = items_sum r \<longleftrightarrow> OrderReceipt.total_price r = items_sum r)))
   \<and> (k < length (turns s) \<and> pending (turns s ! k) \<and> streamingId (turns s ! k) = Some sid
      \<and> parseReceipt P C (fullContent (turns s ! k)) = Some r
      \<and> rtype r = order_update \<and> modifying s = Some (oid, m) \<and> \<not> fails UpdateTotal
      \<and> find_order (store s) oid = Some ord \<longrightarrow>
      (\<exists>row. find_order (store (stream_end P C k fails now s)) oid = Some row
            \<and> row = ord\<lparr>total_price := OrderReceipt.total_price r\<rparr>
            \<and> NewOrder.total_price row = OrderReceipt.total_price r
            \<and> (NewOrder.total_price row = items_sum r \<longleftrightarrow> OrderReceipt.total_price r = items_sum r)))"
proof -
  have a: "\<exists>row. orders (store (stream_end P C k fails now s)) = orders (store s) @ [row]
            \<and> NewOrder.total_price row = OrderReceipt.total_price r
            \<and> (NewOrder.total_price row = items_sum r \<longleftrightarrow> OrderReceipt.total_price r = items_sum r)"
    if "k < length (turns s)" "pending (turns s ! k)" "streamingId (turns s ! k) = Some sid"
       "parseReceipt P C (fullContent (turns s ! k)) = Some r"
       "rtype r = order_complete" "\<not> fails InsertOrder"
    using store_stream_end [OF that(1-4), of fails now]
          store_finish_receipt_complete [of r fails sid "fullContent (turns s ! k)"
            "stripReceiptBlock (fullContent (turns s ! k))" s] that(5,6)
    by auto
  have b: "\<exists>row. find_order (store (stream_end P C k fails now s)) oid = Some row
            \<and> row = ord\<lparr>total_price := OrderReceipt.total_price r\<rparr>
            \<and> NewOrder.total_price row = OrderReceipt.total_price r
            \<and> (NewOrder.total_price row = items_sum r \<longleftrightarrow> OrderReceipt.total_price r = items_sum r)"
    if "k < length (turns s)" "pending (turns s ! k)" "streamingId (turns s ! k) = Some sid"
       "parseReceipt P C (fullContent (turns s ! k)) = Some r"
       "rtype r = order_update" "modifying s = Some (oid, m)" "\<not> fails UpdateTotal"
       "find_order (store s) oid = Some ord"
    using store_stream_end [OF that(1-4), of fails now]
          store_finish_receipt_update [of r s oid m fails ord sid "fullContent (turns s ! k)"
            "stripReceiptBlock (fullContent (turns s ! k))"] that(5-8)
    by simp
  from a b show ?thesis by blast
qed

lemma parse_complete:
  "parseReceipt demo_parse demo_cast (forty @ closed_tail) = Some complete_receipt"
  using closed_match
  by (simp add: parseReceipt_def parseReceipt_try_def demo_parse_def demo_cast_def
        complete_value_def update_value_def recognized_type_def js_def)

lemma update_match:
  "regex_exec update_reply = Some (js ''Updated! '', update_json, [])"
  by (simp add: example_defs regex_eval)

lemma parse_update:
  "parseReceipt demo_parse demo_cast update_reply = Some update_receipt"
  using update_match
  by (simp add: parseReceipt_def parseReceipt_try_def demo_parse_def demo_cast_def
        complete_value_def update_value_def recognized_type_def complete_json_def update_json_def js_def)

theorem persisted_total_is_stated_total_witness:
  "(0 < length (turns taking_order) \<and> pending (turns taking_order ! 0)
      \<and> streamingId (turns taking_order ! 0) = Some (Cashier_id 2)
      \<and> parseReceipt demo_parse demo_cast (fullContent (turns taking_order ! 0)) = Some complete_receipt
      \<and> rtype complete_receipt = order_complete \<and> \<not> no_faults InsertOrder
      \<and> (\<exists>row. orders (store (stream_end demo_parse demo_cast 0 no_faults 3 taking_order))
                  = orders (store taking_order) @ [row]
               \<and> NewOrder.total_price row = OrderReceipt.total_price complete_receipt))
   \<and> (1 < length (turns modifying_order) \<and> pending (turns modifying_order ! 1)
      \<and> streamingId (turns modifying_order ! 1) = Some (Cashier_id 6)
      \<and> parseReceipt demo_parse demo_cast (fullContent (turns modifying_order ! 1)) = Some update_receipt
      \<and> rtype update_receipt = order_update
      \<and> modifying modifying_order = Some (0, Cashier_id 2) \<and> \<not> no_faults UpdateTotal
      \<and> find_order (store modifying_order) 0 = Some placed_order
      \<and> find_order (store (stream_end demo_parse demo_cast 1 no_faults 7 modifying_order)) 0
           = Some (placed_order\<lparr>total_price := OrderReceipt.total_price update_receipt\<rparr>)
      \<and> OrderReceipt.total_price update_receipt \<noteq> items_sum update_receipt)"
proof -
  have a: "0 < length (turns taking_order) \<and> pending (turns taking_order ! 0)
      \<and> streamingId (turns taking_order ! 0) = Some (Cashier_id 2)
      \<and> fullContent (turns taking_order ! 0) = forty @ closed_tail"
    by (simp add: taking_order_def)
  have b: "rtype complete_receipt = order_complete \<and> \<not> no_faults InsertOrder
           \<and> \<not> no_faults UpdateTotal \<and> rtype update_receipt = order_update"
    by (simp add: complete_receipt_def update_receipt_def no_faults_def)
  have c: "1 < length (turns modifying_order) \<and> pending (turns modifying_order ! 1)
      \<and> streamingId (turns modifying_order ! 1) = Some (Cashier_id 6)
      \<and> fullContent (turns modifying_order ! 1) = update_reply
      \<and> modifying modifying_order = Some (0, Cashier_id 2)
      \<and> find_order (store modifying_order) 0 = Some placed_order"
    by (simp add: modifying_order_def modifying_def find_order_def placed_store_def placed_order_def)
  have d: "OrderReceipt.total_price update_receipt \<noteq> items_sum update_receipt"
    by (simp add: update_receipt_def items_sum_def receipt_item_def)
  show ?thesis
    using a b c d parse_complete parse_update
      persisted_total_is_stated_total [of 0 taking_order "Cashier_id 2" demo_parse demo_cast
        complete_receipt no_faults 3]
      persisted_total_is_stated_total [of 1 modifying_order "Cashier_id 6" demo_parse demo_cast
        update_receipt no_faults 7 0 "Cashier_id 2" placed_order]
    by auto
qed

end
